theory Spec2Isabelle
  imports Main "HOL-Library.Multiset"
begin

section \<open>Book Finder: the logic of \<open>src/App.jsx\<close>\<close>

text \<open>
  The application is one React component. Its logic is a handful of functions over the
  component's state: the save key of a document (\<open>toBookKey\<close>), the cover URL
  (\<open>buildCoverUrl\<close>), the loader of the persisted save-set (\<open>useLocalStorage\<close>),
  the search request (\<open>searchBooks\<close>), the save toggle (\<open>toggleSave\<close>), the
  client-side sort (\<open>sortedDocs\<close>) and the paginator (\<open>totalPages\<close>,
  \<open>gotoPage\<close>). Each is embedded below in the order of the source.

  Conventions of the embedding.
  \<^item> A JavaScript string is a \<open>string\<close>; a character stands for one code unit in the
    range 0..255.
  \<^item> A JavaScript number is a binary64 value. Where the program holds an integer in
    a number (a year, a cover id, a page, a result count), the embedding has the
    \<open>int\<close> of that value; the one quotient it computes is rounded as the format
    rounds it, and \<open>String(n)\<close> prints what JavaScript prints.
  \<^item> A field of an object that came from JSON is a \<open>jsfield\<close>: absent
    (\<open>undefined\<close> when read), \<open>null\<close>, or a value of the type the Open Library
    response gives it.
  \<^item> State setters and the other effects of an event handler are recorded as a list of
    \<open>action\<close>s in program order; \<open>run\<close> applies the setters to a state. A
    handler reads the state of the render it was created in (its closure), so the
    setters it calls do not change what it reads. The part of \<open>searchBooks\<close> after
    the \<open>await\<close> is listed right after the request; only \<open>window.scrollTo\<close>
    of \<open>gotoPage\<close>, which sets no state, runs in between.
\<close>

subsection \<open>JavaScript values\<close>

datatype 'a jsfield = Absent | Null | Val 'a

text \<open>\<open>x || d\<close> for a string field: the empty string, \<open>null\<close> and \<open>undefined\<close>
  are falsy.\<close>

definition truthy_str :: "string jsfield \<Rightarrow> bool" where
  "truthy_str f = (case f of Val s \<Rightarrow> s \<noteq> [] | _ \<Rightarrow> False)"

definition str_or_else :: "string jsfield \<Rightarrow> string \<Rightarrow> string" where
  "str_or_else f d = (case f of Val s \<Rightarrow> (if s = [] then d else s) | _ \<Rightarrow> d)"

text \<open>\<open>x || d\<close> for a number field: \<open>0\<close>, \<open>null\<close> and \<open>undefined\<close> are falsy.\<close>

definition truthy_num :: "int jsfield \<Rightarrow> bool" where
  "truthy_num f = (case f of Val n \<Rightarrow> n \<noteq> 0 | _ \<Rightarrow> False)"

definition num_or_else :: "int jsfield \<Rightarrow> int \<Rightarrow> int" where
  "num_or_else f d = (case f of Val n \<Rightarrow> (if n = 0 then d else n) | _ \<Rightarrow> d)"

text \<open>\<open>x || null\<close>: a falsy field becomes \<open>null\<close>.\<close>

definition str_or_null :: "string jsfield \<Rightarrow> string jsfield" where
  "str_or_null f = (if truthy_str f then f else Null)"

definition num_or_null :: "int jsfield \<Rightarrow> int jsfield" where
  "num_or_null f = (if truthy_num f then f else Null)"

text \<open>
  Numbers. A JavaScript number is an IEEE 754 binary64 value. The program only holds
  integers in its numbers, and one quotient: \<open>numFound / LIMIT\<close>. An \<open>int\<close>
  of the embedding stands for the number of that value, and a pair \<open>(m, e)\<close> for
  the number \<open>m * 2^e\<close>.
\<close>

type_synonym double = "int \<times> int"

text \<open>The position of the leading bit: \<open>floor_log2 n\<close> is the greatest \<open>k\<close>
  with \<open>2^k \<le> n\<close>, for \<open>n \<ge> 1\<close>.\<close>

function floor_log2 :: "int \<Rightarrow> nat" where
  "floor_log2 n = (if n < 2 then 0 else Suc (floor_log2 (n div 2)))"
  by pat_completeness auto
termination
  by (relation "measure nat") auto

declare floor_log2.simps [simp del]

text \<open>The least \<open>j\<close> with \<open>b \<le> a * 2^j\<close>, for \<open>0 < a\<close>.\<close>

function scale_up :: "int \<Rightarrow> int \<Rightarrow> nat" where
  "scale_up a b = (if a \<le> 0 \<or> b \<le> a then 0 else Suc (scale_up (2 * a) b))"
  by pat_completeness auto
termination
  by (relation "measure (\<lambda>(a, b). nat (b - a))") auto

declare scale_up.simps [simp del]

text \<open>The binary exponent of the quotient \<open>a / b\<close> of positive integers: the
  \<open>e\<close> with \<open>2^e \<le> a / b < 2^(e + 1)\<close>.\<close>

definition quotient_exponent :: "int \<Rightarrow> int \<Rightarrow> int" where
  "quotient_exponent a b =
     (if b \<le> a then int (floor_log2 (a div b)) else - int (scale_up a b))"

text \<open>The integer nearest to \<open>num / den\<close>, the even one of two that are equally
  near (\<open>den\<close> positive).\<close>

definition round_half_even :: "int \<Rightarrow> int \<Rightarrow> int" where
  "round_half_even num den =
     (let q = num div den; r = num mod den
      in if 2 * r < den then q
         else if den < 2 * r then q + 1
         else if even q then q else q + 1)"

text \<open>
  The operator \<open>/\<close> on two positive integer-valued numbers, the divisor at most
  \<open>2^53\<close>: the quotient rounded to 53 significant bits, to nearest, ties to even.
  Such a quotient is neither too large nor too small for the format.
\<close>

definition number_div_pos :: "int \<Rightarrow> int \<Rightarrow> double" where
  "number_div_pos a b =
     (let e = quotient_exponent a b;
          m = (if e \<le> 52 then round_half_even (a * 2 ^ nat (52 - e)) b
               else round_half_even a (b * 2 ^ nat (e - 52)))
      in (m, e - 52))"

text \<open>\<open>a / b\<close> for an integer-valued \<open>a\<close> of either sign and such a \<open>b\<close>.\<close>

definition number_div :: "int \<Rightarrow> int \<Rightarrow> double" where
  "number_div a b =
     (if a = 0 then (0, 0)
      else if 0 < a then number_div_pos a b
      else (- fst (number_div_pos (- a) b), snd (number_div_pos (- a) b)))"

text \<open>\<open>Math.ceil\<close>; its result is an integer (\<open>-0\<close> is \<open>0\<close> here).\<close>

definition Math_ceil :: "double \<Rightarrow> int" where
  "Math_ceil x =
     (if 0 \<le> snd x then fst x * 2 ^ nat (snd x) else - ((- fst x) div 2 ^ nat (- snd x)))"

text \<open>The number nearest to a positive integer, and the integers that are numbers.\<close>

definition to_double :: "int \<Rightarrow> int" where
  "to_double y =
     (if y < 2 ^ 53 then y
      else fst (number_div_pos y 1) * 2 ^ nat (snd (number_div_pos y 1)))"

definition is_Number :: "int \<Rightarrow> bool" where
  "is_Number n = (to_double \<bar>n\<bar> = \<bar>n\<bar> \<and> \<bar>n\<bar> < 2 ^ 1024)"

text \<open>
  \<open>String(n)\<close> and \<open>${n}\<close> for an integer-valued number (\<open>Number::toString\<close>
  of ECMAScript, radix 10). Up to \<open>2^53\<close> every integer is a number of its own, and
  the result is its decimal notation. Above, the result has the fewest digits \<open>s\<close>
  such that \<open>s * 10^(n - k)\<close> is nearer to this number than to any other, followed by
  zeros up to \<open>n = 21\<close> digits and in exponent notation beyond.
\<close>

definition digit_char :: "nat \<Rightarrow> char" where
  "digit_char n = ''0123456789'' ! n"

function decimal :: "int \<Rightarrow> string" where
  "decimal n = (if n < 10 then [digit_char (nat n)]
                else decimal (n div 10) @ [digit_char (nat (n mod 10))])"
  by pat_completeness auto
termination
  by (relation "measure nat") auto

declare decimal.simps [simp del]

text \<open>The digits \<open>s\<close> and the position \<open>n\<close> of the decimal point, trying
  \<open>k = 1, 2, ...\<close> digits; \<open>x\<close> has \<open>n\<close> decimal digits.\<close>

fun shortest_digits :: "nat \<Rightarrow> nat \<Rightarrow> int \<Rightarrow> nat \<Rightarrow> int \<times> nat" where
  "shortest_digits 0 k x n = (x, n)"
| "shortest_digits (Suc fuel) k x n =
     (let p = 10 ^ (n - k);
          lo = x div p;
          hi = lo + 1;
          ok_lo = (to_double (lo * p) = x);
          ok_hi = (to_double (hi * p) = x)
      in if ok_lo \<and> (\<not> ok_hi \<or> x - lo * p < hi * p - x \<or> (x - lo * p = hi * p - x \<and> even lo))
         then (lo, n)
         else if ok_hi then (if hi = 10 ^ k then (1, Suc n) else (hi, n))
         else shortest_digits fuel (Suc k) x n)"

definition Number_toString :: "int \<Rightarrow> string" where
  "Number_toString x =
     (if x \<le> 2 ^ 53 then decimal x
      else let n0 = length (decimal x);
               r = shortest_digits n0 1 x n0;
               ds = decimal (fst r);
               k = length ds;
               n = snd r
           in if n \<le> 21 then ds @ replicate (n - k) (CHR ''0'')
              else (if k = 1 then ds else hd ds # CHR ''.'' # tl ds)
                   @ ''e+'' @ decimal (int n - 1))"

definition String :: "int \<Rightarrow> string" where
  "String i = (if i < 0 then CHR ''-'' # Number_toString (- i) else Number_toString i)"

text \<open>\<open>${s}\<close> for a string field of a JSON object.\<close>

definition template_str :: "string jsfield \<Rightarrow> string" where
  "template_str f = (case f of Absent \<Rightarrow> ''undefined'' | Null \<Rightarrow> ''null'' | Val s \<Rightarrow> s)"

text \<open>\<open>String.prototype.trim\<close>: the white space and line terminators of ECMAScript
  that lie in the range of \<open>char\<close> (TAB, LF, VT, FF, CR, SP, NBSP).\<close>

definition is_js_space :: "char \<Rightarrow> bool" where
  "is_js_space c = (c \<in> set [CHR 0x09, CHR 0x0A, CHR 0x0B, CHR 0x0C, CHR 0x0D, CHR 0x20, CHR 0xA0])"

definition trim :: "string \<Rightarrow> string" where
  "trim s = rev (dropWhile is_js_space (rev (dropWhile is_js_space s)))"

text \<open>Exceptions, as values.\<close>

datatype exn = TypeError | SyntaxError | SecurityError | FetchRejected | HttpError nat

definition try_catch :: "exn + 'a \<Rightarrow> (exn \<Rightarrow> exn + 'a) \<Rightarrow> exn + 'a" where
  "try_catch body handler = (case body of Inl e \<Rightarrow> handler e | Inr v \<Rightarrow> Inr v)"

subsection \<open>Documents, cover URL and save key\<close>

definition LIMIT :: int where
  "LIMIT = 20"

record doc =
  key :: "string jsfield"
  cover_edition_key :: "string jsfield"
  title :: "string jsfield"
  first_publish_year :: "int jsfield"
  cover_i :: "int jsfield"
  author_name :: "string list jsfield"

text \<open>\<open>buildCoverUrl(doc, size)\<close>: \<open>null\<close> is \<open>None\<close>.\<close>

definition buildCoverUrl :: "doc \<Rightarrow> string \<Rightarrow> string option" where
  "buildCoverUrl d sz =
     (if truthy_num (cover_i d)
      then Some (''https://covers.openlibrary.org/b/id/'' @ String (num_or_else (cover_i d) 0)
                 @ ''-'' @ sz @ ''.jpg'')
      else None)"

text \<open>The template literal \<open>`${doc.title}-${doc.first_publish_year || ""}`\<close>.\<close>

definition title_year_key :: "doc \<Rightarrow> string" where
  "title_year_key d =
     template_str (title d) @ ''-'' @
     (if truthy_num (first_publish_year d) then String (num_or_else (first_publish_year d) 0) else '''')"

text \<open>\<open>doc.key || doc.cover_edition_key || `...`\<close>.\<close>

definition toBookKey :: "doc \<Rightarrow> string" where
  "toBookKey d = str_or_else (key d) (str_or_else (cover_edition_key d) (title_year_key d))"

subsection \<open>Loading the persisted save-set\<close>

text \<open>
  The initialiser of \<open>useLocalStorage\<close>. The browser is a parameter: \<open>getItem\<close>
  is \<open>localStorage.getItem\<close>, which returns \<open>null\<close> (\<open>None\<close>) or the stored
  string, or throws when storage is not accessible; \<open>JSON_parse\<close> is \<open>JSON.parse\<close>,
  which returns the value or throws. \<open>raw ? JSON.parse(raw) : initial\<close> takes the
  second branch for \<open>null\<close> and for the empty string.
\<close>

definition useLocalStorage_init ::
  "(string \<Rightarrow> exn + string option) \<Rightarrow> (string \<Rightarrow> exn + 'v) \<Rightarrow> string \<Rightarrow> 'v \<Rightarrow> exn + 'v" where
  "useLocalStorage_init getItem JSON_parse k initial =
     try_catch
       (case getItem k of
          Inl e \<Rightarrow> Inl e
        | Inr raw \<Rightarrow>
            (case raw of
               None \<Rightarrow> Inr initial
             | Some r \<Rightarrow> (if r = [] then Inr initial else JSON_parse r)))
       (\<lambda>e. Inr initial)"

subsection \<open>The save-set and the save toggle\<close>

record saved_entry =
  saved_key :: string
  saved_title :: "string jsfield"
  saved_author :: string
  saved_year :: "int jsfield"
  saved_cover :: "string option"
  saved_work :: "string jsfield"

type_synonym saved_set = "string \<rightharpoonup> saved_entry"

text \<open>\<open>useLocalStorage("bf_saved", {})\<close>.\<close>

definition saved_init ::
  "(string \<Rightarrow> exn + string option) \<Rightarrow> (string \<Rightarrow> exn + saved_set) \<Rightarrow> exn + saved_set" where
  "saved_init getItem JSON_parse = useLocalStorage_init getItem JSON_parse ''bf_saved'' Map.empty"

text \<open>
  \<open>next[k]\<close> on the plain object \<open>next = { ...prev }\<close> finds an own property first
  (an entry is an object, hence truthy) and otherwise what \<open>Object.prototype\<close>
  provides under that name (a function or an object, hence truthy too).
\<close>

definition object_prototype_names :: "string list" where
  "object_prototype_names =
     [''constructor'', ''hasOwnProperty'', ''isPrototypeOf'', ''propertyIsEnumerable'',
      ''toLocaleString'', ''toString'', ''valueOf'', ''__proto__'',
      ''__defineGetter__'', ''__defineSetter__'', ''__lookupGetter__'', ''__lookupSetter__'']"

definition property_truthy :: "saved_set \<Rightarrow> string \<Rightarrow> bool" where
  "property_truthy obj k = (case obj k of Some e \<Rightarrow> True | None \<Rightarrow> k \<in> set object_prototype_names)"

text \<open>\<open>(doc.author_name && doc.author_name[0]) || "Unknown"\<close>.\<close>

definition first_author :: "doc \<Rightarrow> string" where
  "first_author d =
     (case author_name d of
        Val (a # as) \<Rightarrow> (if a = [] then ''Unknown'' else a)
      | _ \<Rightarrow> ''Unknown'')"

definition new_entry :: "string \<Rightarrow> doc \<Rightarrow> saved_entry" where
  "new_entry k d =
     \<lparr> saved_key = k,
       saved_title = title d,
       saved_author = first_author d,
       saved_year = num_or_null (first_publish_year d),
       saved_cover = buildCoverUrl d ''M'',
       saved_work = str_or_null (key d) \<rparr>"

text \<open>The updater that \<open>toggleSave(doc)\<close> gives to \<open>setSaved\<close>. \<open>delete next[k]\<close>
  removes an own property and does nothing when there is none.\<close>

definition toggleSave :: "doc \<Rightarrow> saved_set \<Rightarrow> saved_set" where
  "toggleSave d prev =
     (let k = toBookKey d;
          next = prev
      in if property_truthy next k then next(k := None)
         else next(k \<mapsto> new_entry k d))"

subsection \<open>Component state and effects\<close>

record app_state =
  query :: string
  author :: string
  sort_sel :: string
  page :: int
  loading :: bool
  error :: string
  docs :: "doc list"
  numFound :: int
  saved :: saved_set

text \<open>\<open>URLSearchParams.set\<close>: the first pair of that name gets the value and the
  other pairs of that name are removed; without such a pair, one is appended.\<close>

fun searchParams_set :: "string \<Rightarrow> string \<Rightarrow> (string \<times> string) list \<Rightarrow> (string \<times> string) list" where
  "searchParams_set n v [] = [(n, v)]"
| "searchParams_set n v (p # ps) =
     (if fst p = n then (n, v) # filter (\<lambda>q. fst q \<noteq> n) ps
      else p # searchParams_set n v ps)"

record url =
  href :: string
  searchParams :: "(string \<times> string) list"

datatype action =
    SetLoading bool
  | SetError string
  | SetDocs "doc list"
  | SetNumFound int
  | SetPage int
  | Fetch url
  | ScrollToTop

text \<open>
  What \<open>fetch\<close> and \<open>res.json()\<close> can give: the promise is rejected (network
  failure), or a response with a status arrives whose body does not parse, parses to
  \<open>null\<close>, or parses to a value with the fields \<open>docs\<close> and \<open>numFound\<close>
  (either of which may be absent).
\<close>

datatype body =
    BodyUnparsable
  | BodyNull
  | BodyData "doc list jsfield" "int jsfield"

datatype fetch_outcome =
    NetworkError
  | Response nat body

definition res_ok :: "nat \<Rightarrow> bool" where
  "res_ok status = (200 \<le> status \<and> status \<le> 299)"

definition or_page :: "int option \<Rightarrow> int \<Rightarrow> int" where
  "or_page pageOverride p = (case pageOverride of Some n \<Rightarrow> (if n = 0 then p else n) | None \<Rightarrow> p)"

definition or_docs :: "doc list jsfield \<Rightarrow> doc list" where
  "or_docs f = (case f of Val ds \<Rightarrow> ds | _ \<Rightarrow> [])"

text \<open>Lines 57 to 62: the URL of the request.\<close>

definition search_url :: "app_state \<Rightarrow> string \<Rightarrow> int option \<Rightarrow> url" where
  "search_url s q pageOverride =
     (let pageToUse = or_page pageOverride (page s);
          p0 = [];
          p1 = searchParams_set ''title'' q p0;
          p2 = (if trim (author s) \<noteq> [] then searchParams_set ''author'' (trim (author s)) p1 else p1);
          p3 = searchParams_set ''page'' (String pageToUse) p2;
          p4 = searchParams_set ''limit'' (String LIMIT) p3
      in \<lparr> href = ''https://openlibrary.org/search.json'', searchParams = p4 \<rparr>)"

text \<open>The \<open>try\<close> block of \<open>searchBooks\<close>: the effects performed and the exception
  that ended it, if any.\<close>

definition search_try :: "app_state \<Rightarrow> string \<Rightarrow> int option \<Rightarrow> fetch_outcome \<Rightarrow> action list \<times> exn option" where
  "search_try s q pageOverride outcome =
     (let u = search_url s q pageOverride
      in case outcome of
           NetworkError \<Rightarrow> ([Fetch u], Some FetchRejected)
         | Response status b \<Rightarrow>
             (if \<not> res_ok status then ([Fetch u], Some (HttpError status))
              else case b of
                     BodyUnparsable \<Rightarrow> ([Fetch u], Some SyntaxError)
                   | BodyNull \<Rightarrow> ([Fetch u], Some TypeError)
                   | BodyData ds n \<Rightarrow>
                       ([Fetch u, SetDocs (or_docs ds), SetNumFound (num_or_else n 0)], None)))"

definition error_message :: string where
  "error_message = ''Something went wrong. There was a network or API error.''"

definition searchBooks :: "app_state \<Rightarrow> int option \<Rightarrow> fetch_outcome \<Rightarrow> action list" where
  "searchBooks s pageOverride outcome =
     (let q = trim (query s)
      in if q = [] then []
         else let r = search_try s q pageOverride outcome
              in [SetLoading True, SetError ''''] @ fst r
                 @ (case snd r of Some e \<Rightarrow> [SetError error_message] | None \<Rightarrow> [])
                 @ [SetLoading False])"

definition onSubmit :: "app_state \<Rightarrow> fetch_outcome \<Rightarrow> action list" where
  "onSubmit s outcome = SetPage 1 # searchBooks s (Some 1) outcome"

fun apply_action :: "app_state \<Rightarrow> action \<Rightarrow> app_state" where
  "apply_action s (SetLoading b) = s\<lparr>loading := b\<rparr>"
| "apply_action s (SetError m) = s\<lparr>error := m\<rparr>"
| "apply_action s (SetDocs ds) = s\<lparr>docs := ds\<rparr>"
| "apply_action s (SetNumFound n) = s\<lparr>numFound := n\<rparr>"
| "apply_action s (SetPage p) = s\<lparr>page := p\<rparr>"
| "apply_action s (Fetch u) = s"
| "apply_action s ScrollToTop = s"

definition run :: "action list \<Rightarrow> app_state \<Rightarrow> app_state" where
  "run acts s = foldl apply_action s acts"

text \<open>The requests among the effects.\<close>

definition requests :: "action list \<Rightarrow> url list" where
  "requests acts = concat (map (\<lambda>a. case a of Fetch u \<Rightarrow> [u] | _ \<Rightarrow> []) acts)"

subsection \<open>Paginator\<close>

text \<open>\<open>Math.max(1, Math.ceil(numFound / LIMIT))\<close>: the division is that of numbers,
  not of integers.\<close>

definition totalPages :: "app_state \<Rightarrow> int" where
  "totalPages s = max 1 (Math_ceil (number_div (numFound s) LIMIT))"

definition gotoPage :: "app_state \<Rightarrow> int \<Rightarrow> fetch_outcome \<Rightarrow> action list" where
  "gotoPage s p outcome =
     (let clamped = min (max 1 p) (totalPages s)
      in SetPage clamped # searchBooks s (Some clamped) outcome @ [ScrollToTop])"

subsection \<open>Sort transform\<close>

text \<open>
  \<open>Array.prototype.sort(cmp)\<close> sorts in place and is stable. For a consistent
  comparator that fixes the result, and the stable insertion sort below computes it:
  an element goes in front of the first element of the sorted rest that it does not
  compare greater than.
\<close>

fun insert_by :: "('a \<Rightarrow> 'a \<Rightarrow> int) \<Rightarrow> 'a \<Rightarrow> 'a list \<Rightarrow> 'a list" where
  "insert_by cmp x [] = [x]"
| "insert_by cmp x (y # ys) = (if cmp x y \<le> 0 then x # y # ys else y # insert_by cmp x ys)"

fun js_sort :: "('a \<Rightarrow> 'a \<Rightarrow> int) \<Rightarrow> 'a list \<Rightarrow> 'a list" where
  "js_sort cmp [] = []"
| "js_sort cmp (x # xs) = insert_by cmp x (js_sort cmp xs)"

text \<open>Arrays live in a store, addressed by position: \<open>[...a]\<close> allocates a copy,
  \<open>a.sort(cmp)\<close> overwrites the array at its address.\<close>

type_synonym store = "doc list list"

definition array_copy :: "store \<Rightarrow> nat \<Rightarrow> nat \<times> store" where
  "array_copy h a = (length h, h @ [h ! a])"

definition array_sort :: "(doc \<Rightarrow> doc \<Rightarrow> int) \<Rightarrow> store \<Rightarrow> nat \<Rightarrow> store" where
  "array_sort cmp h a = h[a := js_sort cmp (h ! a)]"

text \<open>The body of the \<open>useMemo\<close> that computes \<open>sortedDocs\<close>; \<open>docs_ref\<close> is the
  address of the array held in the state and \<open>localeCompare\<close> is
  \<open>String.prototype.localeCompare\<close> of the browser.\<close>

definition sortedDocs :: "(string \<Rightarrow> string \<Rightarrow> int) \<Rightarrow> string \<Rightarrow> store \<Rightarrow> nat \<Rightarrow> nat \<times> store" where
  "sortedDocs localeCompare srt h docs_ref =
     (let (arr, h1) = array_copy h docs_ref;
          h2 = (if srt = ''year_desc''
                then array_sort (\<lambda>a b. num_or_else (first_publish_year b) 0 - num_or_else (first_publish_year a) 0) h1 arr
                else if srt = ''year_asc''
                then array_sort (\<lambda>a b. num_or_else (first_publish_year a) 0 - num_or_else (first_publish_year b) 0) h1 arr
                else if srt = ''title_asc''
                then array_sort (\<lambda>a b. localeCompare (str_or_else (title a) '''') (str_or_else (title b) '''')) h1 arr
                else h1)
      in (arr, h2))"

subsection \<open>Notions of the specification\<close>

text \<open>The ceiling of a quotient of integers, in integer arithmetic, and the clamp of a
  value into an interval.\<close>

definition ceil_div :: "int \<Rightarrow> int \<Rightarrow> int" where
  "ceil_div a b = (if a mod b = 0 then a div b else a div b + 1)"

definition clamp :: "int \<Rightarrow> int \<Rightarrow> int \<Rightarrow> int" where
  "clamp lo hi p = (if p < lo then lo else if hi < p then hi else p)"

text \<open>
  The failures of a search execution as the specification lists them: the request is
  rejected (network error), the status is not 2xx, or the body does not parse.
\<close>

definition listed_failure :: "fetch_outcome \<Rightarrow> bool" where
  "listed_failure outcome =
     (case outcome of
        NetworkError \<Rightarrow> True
      | Response status b \<Rightarrow> status < 200 \<or> 299 < status \<or> b = BodyUnparsable)"

text \<open>
  The failures of a search execution as the code has them: the listed ones, and a body
  that parses to \<open>null\<close>, where reading \<open>data.docs\<close> throws. These are the
  outcomes that end the \<open>try\<close> block with an exception.
\<close>

definition search_fails :: "fetch_outcome \<Rightarrow> bool" where
  "search_fails outcome =
     (case outcome of
        NetworkError \<Rightarrow> True
      | Response status b \<Rightarrow>
          status < 200 \<or> 299 < status \<or> b = BodyUnparsable \<or> b = BodyNull)"

definition touches_results :: "action \<Rightarrow> bool" where
  "touches_results a = (case a of SetDocs ds \<Rightarrow> True | SetNumFound n \<Rightarrow> True | _ \<Rightarrow> False)"

text \<open>The state of the component when it is mounted (lines 38 to 47), with an empty
  save-set.\<close>

definition state0 :: app_state where
  "state0 = \<lparr> query = '''', author = '''', sort_sel = ''relevance'', page = 1, loading = False,
              error = '''', docs = [], numFound = 0, saved = Map.empty \<rparr>"

text \<open>A document without any field, the object \<open>{}\<close>.\<close>

definition doc0 :: doc where
  "doc0 = \<lparr> key = Absent, cover_edition_key = Absent, title = Absent,
             first_publish_year = Absent, cover_i = Absent, author_name = Absent \<rparr>"

text \<open>
  A comparator is consistent, in the sense \<open>Array.prototype.sort\<close> requires for a
  defined result, when the signs of \<open>cmp a b\<close> and \<open>cmp b a\<close> are opposite and
  "not greater" is transitive.
\<close>

definition consistent_comparator :: "('a \<Rightarrow> 'a \<Rightarrow> int) \<Rightarrow> bool" where
  "consistent_comparator cmp =
     ((\<forall>a b. (cmp a b < 0) = (0 < cmp b a))
      \<and> (\<forall>a b c. cmp a b \<le> 0 \<and> cmp b c \<le> 0 \<longrightarrow> cmp a c \<le> 0))"

text \<open>A missing year counts as 0, a missing title as the empty string.\<close>

definition year_or_zero :: "doc \<Rightarrow> int" where
  "year_or_zero d = (case first_publish_year d of Val y \<Rightarrow> y | _ \<Rightarrow> 0)"

definition title_or_empty :: "doc \<Rightarrow> string" where
  "title_or_empty d = (case title d of Val t \<Rightarrow> t | _ \<Rightarrow> [])"

text \<open>One consistent comparator of strings: the lexicographic order of the code units.\<close>

fun compare_code_units :: "string \<Rightarrow> string \<Rightarrow> int" where
  "compare_code_units [] [] = 0"
| "compare_code_units [] (y # ys) = - 1"
| "compare_code_units (x # xs) [] = 1"
| "compare_code_units (x # xs) (y # ys) =
     (if (of_char x :: nat) < of_char y then - 1
      else if (of_char y :: nat) < of_char x then 1
      else compare_code_units xs ys)"

text \<open>Three documents: one with title and year, one without year, one without title.\<close>

definition docA :: doc where
  "docA = doc0\<lparr>title := Val ''Dune'', first_publish_year := Val 1965\<rparr>"

definition docB :: doc where
  "docB = doc0\<lparr>title := Val ''Emma''\<rparr>"

definition docC :: doc where
  "docC = doc0\<lparr>first_publish_year := Val 2001\<rparr>"

definition docsABC :: "doc list" where
  "docsABC = [docA, docB, docC]"

section \<open>Properties\<close>

subsection \<open>Auxiliary facts\<close>

text \<open>\<open>ceil_div a 20\<close> is the least number of pages of 20 that hold \<open>a\<close> results.\<close>

lemma ceil_div_least:
  "a \<le> ceil_div a 20 * 20 \<and> (\<forall>k. a \<le> k * 20 \<longrightarrow> ceil_div a 20 \<le> k)"
proof -
  define q r where "q = a div 20" and "r = a mod 20"
  have a: "a = 20 * q + r" and r: "0 \<le> r" "r < 20"
    by (simp_all add: q_def r_def)
  have c: "ceil_div a 20 = (if r = 0 then q else q + 1)"
    by (simp add: ceil_div_def q_def r_def)
  have up: "a \<le> ceil_div a 20 * 20"
    unfolding c using a r by simp
  have lo: "ceil_div a 20 \<le> k" if "a \<le> k * 20" for k
    unfolding c using a r that by (cases "r = 0") simp_all
  from up lo show ?thesis by blast
qed

lemma floor_log2_less: "n < 2 ^ k \<Longrightarrow> 0 < k \<Longrightarrow> floor_log2 n < k"
proof (induction n arbitrary: k rule: floor_log2.induct)
  case (1 n)
  show ?case
  proof (cases "n < 2")
    case True
    then show ?thesis using 1(3) by (simp add: floor_log2.simps)
  next
    case False
    then obtain j where k: "k = Suc j"
      using 1(3) by (cases k) auto
    have j: "0 < j"
      using False 1(2) k by (cases j) auto
    have "n div 2 < 2 ^ j"
      using 1(2) k by simp
    then have "floor_log2 (n div 2) < j"
      using 1(1) False j by simp
    then show ?thesis
      using False k by (simp add: floor_log2.simps)
  qed
qed

text \<open>Rounding to nearest moves a quotient by at most one half, and not across an
  integer.\<close>

lemma round_half_even_cases:
  "round_half_even num den = num div den
   \<and> 2 * (num mod den) \<le> den
   \<or> round_half_even num den = num div den + 1 \<and> den \<le> 2 * (num mod den)"
  by (auto simp: round_half_even_def Let_def)

lemma round_half_even_lower:
  assumes "0 < den"
  shows "2 * num - den \<le> 2 * den * round_half_even num den"
proof -
  define q r where "q = num div den" and "r = num mod den"
  have n: "num = den * q + r" and r: "0 \<le> r" "r < den"
    using assms by (simp_all add: q_def r_def)
  have a: "2 * num - den \<le> 2 * den * q" if "2 * r \<le> den"
    using that n by (simp add: algebra_simps)
  have b: "2 * num - den \<le> 2 * den * (q + 1)"
    using n r by (simp add: algebra_simps)
  from round_half_even_cases [of num den] a b show ?thesis
    unfolding q_def r_def by auto
qed

lemma round_half_even_upper:
  assumes "0 < den" and "num \<le> z * den"
  shows "round_half_even num den \<le> z"
proof -
  define q r where "q = num div den" and "r = num mod den"
  have n: "num = den * q + r" and r: "0 \<le> r" "r < den"
    using assms by (simp_all add: q_def r_def)
  have qz: "q \<le> z"
  proof (rule ccontr)
    assume "\<not> q \<le> z"
    then have "z + 1 \<le> q" by simp
    then have "den * (z + 1) \<le> den * q"
      using assms(1) by (simp add: mult_left_mono)
    with n r assms(2) show False by (simp add: algebra_simps)
  qed
  have q1: "q + 1 \<le> z" if "den \<le> 2 * r"
  proof (rule ccontr)
    assume "\<not> q + 1 \<le> z"
    with qz have "z = q" by simp
    with n that assms show False by (simp add: algebra_simps)
  qed
  from round_half_even_cases [of num den] qz q1 show ?thesis
    unfolding q_def r_def by auto
qed

lemma ceil_div_bounds:
  "20 * (ceil_div n 20 - 1) < n \<and> n \<le> 20 * ceil_div n 20"
proof -
  define q r where "q = n div 20" and "r = n mod 20"
  have a: "n = 20 * q + r" and r: "0 \<le> r" "r < 20"
    by (simp_all add: q_def r_def)
  have c: "ceil_div n 20 = (if r = 0 then q else q + 1)"
    by (simp add: ceil_div_def q_def r_def)
  show ?thesis
    unfolding c using a r by (cases "r = 0") simp_all
qed

text \<open>Up to \<open>2^53\<close> the quotient by 20 is below \<open>2^49\<close>, so it is rounded to a
  multiple of \<open>2^-4\<close> or finer, which cannot reach the integer below it: the
  ceiling of the rounded quotient is the ceiling of the exact one.\<close>

lemma quotient_exponent_le_48:
  assumes "0 < n" and "n \<le> 2 ^ 53"
  shows "quotient_exponent n 20 \<le> 48"
proof (cases "20 \<le> n")
  case True
  have "n div 20 < 2 ^ 49"
    using assms(2) by simp
  then have "floor_log2 (n div 20) < 49"
    by (rule floor_log2_less) simp
  with True show ?thesis
    by (simp add: quotient_exponent_def)
next
  case False
  then show ?thesis
    by (simp add: quotient_exponent_def)
qed

lemma Math_ceil_number_div_20:
  assumes "0 \<le> n" and "n \<le> 2 ^ 53"
  shows "Math_ceil (number_div n 20) = ceil_div n 20"
proof (cases "n = 0")
  case True
  then show ?thesis
    by (simp add: number_div_def Math_ceil_def ceil_div_def)
next
  case False
  with assms(1) have pos: "0 < n" by simp
  define e where "e = quotient_exponent n 20"
  define s where "s = nat (52 - e)"
  define P :: int where "P = 2 ^ s"
  define m where "m = round_half_even (n * P) 20"
  define c where "c = ceil_div n 20"
  have e: "e \<le> 48"
    unfolding e_def using pos assms(2) by (rule quotient_exponent_le_48)
  then have s4: "4 \<le> s"
    by (simp add: s_def)
  have "(2::int) ^ 4 \<le> 2 ^ s"
    using s4 by (intro power_increasing) simp_all
  then have P16: "16 \<le> P"
    by (simp add: P_def)
  have nd: "number_div n 20 = (m, e - 52)"
    using pos e by (simp add: number_div_def number_div_pos_def Let_def e_def m_def P_def s_def)
  have mc: "Math_ceil (number_div n 20) = - ((- m) div P)"
    using e by (simp add: nd Math_ceil_def P_def s_def)
  have cb: "20 * (c - 1) < n" "n \<le> 20 * c"
    using ceil_div_bounds [of n] by (simp_all add: c_def)
  have "n * P \<le> (c * P) * 20"
  proof -
    have "n * P \<le> (20 * c) * P"
      using cb(2) P16 by (intro mult_right_mono) simp_all
    then show ?thesis by (simp add: algebra_simps)
  qed
  then have up: "m \<le> c * P"
    unfolding m_def by (intro round_half_even_upper) simp_all
  have "(20 * (c - 1) + 1) * P \<le> n * P"
    using cb(1) P16 by (intro mult_right_mono) simp_all
  then have "20 * ((c - 1) * P) + P \<le> n * P"
    by (simp add: algebra_simps)
  moreover have "2 * (n * P) - 20 \<le> 2 * 20 * m"
    unfolding m_def by (intro round_half_even_lower) simp
  ultimately have lo: "(c - 1) * P < m"
    using P16 by simp
  have "- ((- m) div P) = c"
  proof -
    have Ppos: "0 < P" using P16 by simp
    define t where "t = (- m) div P"
    define u where "u = (- m) mod P"
    have mm: "- m = P * t + u" and u: "0 \<le> u" "u < P"
      using Ppos by (simp_all add: t_def u_def)
    have "P * (- c) \<le> P * t + u" "P * t + u < P * (1 - c)"
      using up lo mm by (simp_all add: algebra_simps)
    then have "P * (- c) < P * (t + 1)" "P * t < P * (1 - c)"
      using u by (simp_all add: algebra_simps)
    then have "- c < t + 1" "t < 1 - c"
      using Ppos by (simp_all only: mult_less_cancel_left_pos)
    then show ?thesis
      unfolding t_def by simp
  qed
  with mc show ?thesis
    by (simp add: c_def)
qed

lemma all_dropWhile: "(\<forall>x \<in> set (dropWhile P q). P x) \<longleftrightarrow> (\<forall>x \<in> set q. P x)"
  by (induction q) auto

lemma trim_empty_iff: "trim q = [] \<longleftrightarrow> (\<forall>c \<in> set q. is_js_space c)"
  by (simp add: trim_def all_dropWhile)

text \<open>
  The number model on known values: \<open>1 / 20\<close> is the number
  \<open>0x1999999999999A * 2^-57\<close>; \<open>2^53 + 1\<close> is not a number and lies half way
  between two, of which the one with the even significand is nearest; \<open>2^60\<close> prints
  with 16 significant digits, and exponent notation starts at \<open>10^21\<close>.
\<close>

lemma number_examples:
  "number_div 1 20 = (7205759403792794, - 57)"
  "number_div 45 20 = (5066549580791808, - 51)"
  "Math_ceil (number_div 45 20) = 3"
  "Math_ceil (number_div (- 45) 20) = - 2"
  "to_double (2 ^ 53 + 1) = 2 ^ 53"
  "to_double (2 ^ 53 + 3) = 2 ^ 53 + 4"
  "is_Number (2 ^ 53 + 2)"
  "\<not> is_Number (2 ^ 53 + 1)"
  by code_simp+

lemma String_examples:
  "String 0 = ''0''"
  "String (- 12) = ''-12''"
  "String 1965 = ''1965''"
  "String (2 ^ 53) = ''9007199254740992''"
  "String (2 ^ 60) = ''1152921504606847000''"
  "String (10 ^ 21) = ''1e+21''"
  "String (2 ^ 70) = ''1.1805916207174113e+21''"
  by code_simp+

text \<open>
  Dropping a run of elements from both ends of a list: what remains is the middle of
  the list between two such runs, and it is the only such middle that neither begins
  nor ends with such an element.
\<close>

lemma strip_decomposition:
  "\<exists>l r. q = l @ rev (dropWhile P (rev (dropWhile P q))) @ r \<and> list_all P l \<and> list_all P r"
proof -
  define l where "l = takeWhile P q"
  define m where "m = dropWhile P q"
  define r where "r = rev (takeWhile P (rev m))"
  define t where "t = rev (dropWhile P (rev m))"
  have "m = rev (takeWhile P (rev m) @ dropWhile P (rev m))"
    by (simp only: takeWhile_dropWhile_id rev_rev_ident)
  then have m: "m = t @ r"
    by (simp only: rev_append t_def r_def)
  have "q = l @ m"
    by (simp add: l_def m_def)
  also have "l @ m = l @ t @ r"
    using m by simp
  finally have q: "q = l @ t @ r" .
  have wl: "list_all P l"
    by (simp add: l_def list_all_iff) (meson set_takeWhileD)
  have wr: "list_all P r"
    by (simp add: r_def list_all_iff) (meson set_takeWhileD)
  from q wl wr show ?thesis
    unfolding t_def m_def by blast
qed

lemma strip_ends:
  assumes "rev (dropWhile P (rev (dropWhile P q))) \<noteq> []"
  shows "\<not> P (hd (rev (dropWhile P (rev (dropWhile P q)))))
       \<and> \<not> P (last (rev (dropWhile P (rev (dropWhile P q)))))"
proof -
  define m where "m = dropWhile P q"
  define t where "t = rev (dropWhile P (rev m))"
  have ne: "t \<noteq> []"
    using assms by (simp add: t_def m_def)
  then have d: "dropWhile P (rev m) \<noteq> []"
    by (simp add: t_def)
  have "last t = hd (dropWhile P (rev m))"
    using d by (simp add: t_def last_rev)
  then have a: "\<not> P (last t)"
    using d hd_dropWhile by metis
  have "m = rev (takeWhile P (rev m) @ dropWhile P (rev m))"
    by (simp only: takeWhile_dropWhile_id rev_rev_ident)
  then have m: "m = t @ rev (takeWhile P (rev m))"
    by (simp only: rev_append t_def)
  have mne: "m \<noteq> []"
    using m ne by auto
  have "hd t = hd m"
    using m ne by (metis hd_append2)
  then have b: "\<not> P (hd t)"
    using mne hd_dropWhile unfolding m_def by metis
  from a b show ?thesis
    unfolding t_def m_def by simp
qed

lemma strip_unique:
  assumes "list_all P l" and "list_all P r"
    and "t = [] \<or> (\<not> P (hd t) \<and> \<not> P (last t))"
  shows "rev (dropWhile P (rev (dropWhile P (l @ t @ r)))) = t"
proof (cases "t = []")
  case True
  have "\<forall>c \<in> set (l @ r). P c"
    using assms(1,2) by (auto simp: list_all_iff)
  then have "dropWhile P (l @ r) = []"
    by (simp only: dropWhile_eq_Nil_conv)
  moreover have "l @ t @ r = l @ r"
    using True by simp
  ultimately have "dropWhile P (l @ t @ r) = []"
    by (simp only:)
  then show ?thesis
    using True by (simp only: rev.simps dropWhile.simps)
next
  case False
  with assms(3) have h: "\<not> P (hd t)" and e: "\<not> P (last t)"
    by simp_all
  have "dropWhile P (l @ (t @ r)) = dropWhile P (t @ r)"
    using assms(1) by (intro dropWhile_append2) (simp add: list_all_iff)
  also have "\<dots> = t @ r"
    using False h by (cases t) auto
  finally have a: "dropWhile P (l @ t @ r) = t @ r" .
  have "dropWhile P (rev r @ rev t) = dropWhile P (rev t)"
    using assms(2) by (intro dropWhile_append2) (simp add: list_all_iff)
  also have "\<dots> = rev t"
    using False e by (cases "rev t") (auto simp: last_rev [symmetric] simp del: last_rev)
  finally have b: "dropWhile P (rev r @ rev t) = rev t" .
  show ?thesis
    by (simp add: a b)
qed

lemma String_LIMIT: "String LIMIT = ''20''"
  by (simp add: String_def LIMIT_def Number_toString_def decimal.simps digit_char_def)

lemma page_run_searchBooks: "page (run (searchBooks s po outcome) s') = page s'"
  by (auto simp: searchBooks_def run_def search_try_def Let_def
           split: fetch_outcome.splits body.splits)

lemma requests_searchBooks:
  "requests (searchBooks s po outcome)
   = (if trim (query s) = [] then [] else [search_url s (trim (query s)) po])"
  by (auto simp: searchBooks_def requests_def search_try_def Let_def
           split: fetch_outcome.splits body.splits)

lemma searchParams_search_url:
  "searchParams (search_url s q po)
   = (''title'', q)
     # (if trim (author s) = [] then [] else [(''author'', trim (author s))])
     @ [(''page'', String (or_page po (page s))), (''limit'', ''20'')]"
  by (simp add: search_url_def Let_def String_LIMIT)

lemma not_fails_iff:
  "\<not> search_fails outcome
   \<longleftrightarrow> (\<exists>status ds n. outcome = Response status (BodyData ds n)
                       \<and> 200 \<le> status \<and> status \<le> 299)"
proof (cases outcome)
  case NetworkError
  then show ?thesis by (simp add: search_fails_def)
next
  case (Response status b)
  then show ?thesis by (cases b) (auto simp: search_fails_def)
qed

lemma dash_in_title_year_key: "CHR ''-'' \<in> set (title_year_key d)"
  by (simp add: title_year_key_def)

lemma no_dash_in_prototype_names: "k \<in> set object_prototype_names \<Longrightarrow> CHR ''-'' \<notin> set k"
  by (auto simp: object_prototype_names_def)

lemma title_year_key_not_inherited: "title_year_key d \<notin> set object_prototype_names"
  using dash_in_title_year_key no_dash_in_prototype_names by blast

lemma toggleSave_twice_gen:
  "toggleSave d (toggleSave d S)
   = (if S (toBookKey d) = None then S
      else if toBookKey d \<in> set object_prototype_names then S(toBookKey d := None)
      else S(toBookKey d \<mapsto> new_entry (toBookKey d) d))"
  by (auto simp: toggleSave_def Let_def property_truthy_def fun_upd_idem split: option.splits)

lemma num_or_else_0: "num_or_else (first_publish_year d) 0 = year_or_zero d"
  by (simp add: num_or_else_def year_or_zero_def split: jsfield.splits)

lemma str_or_else_empty: "str_or_else (title d) [] = title_or_empty d"
  by (simp add: str_or_else_def title_or_empty_def split: jsfield.splits)

lemma mset_insert_by: "mset (insert_by cmp x xs) = add_mset x (mset xs)"
  by (induction xs) auto

lemma mset_js_sort: "mset (js_sort cmp xs) = mset xs"
  by (induction xs) (auto simp: mset_insert_by)

lemma set_insert_by: "set (insert_by cmp x xs) = insert x (set xs)"
  by (induction xs) auto

lemma sorted_insert_by:
  assumes "consistent_comparator cmp" and "sorted_wrt (\<lambda>a b. cmp a b \<le> 0) xs"
  shows "sorted_wrt (\<lambda>a b. cmp a b \<le> 0) (insert_by cmp x xs)"
  using assms(2)
proof (induction xs)
  case Nil
  then show ?case by simp
next
  case (Cons y ys)
  have tot: "cmp y x \<le> 0" if "\<not> cmp x y \<le> 0"
    using assms(1) that unfolding consistent_comparator_def by (metis less_le_not_le linorder_not_le)
  have tr: "cmp a c \<le> 0" if "cmp a b \<le> 0" "cmp b c \<le> 0" for a b c
    using assms(1) that unfolding consistent_comparator_def by blast
  show ?case
  proof (cases "cmp x y \<le> 0")
    case True
    then have "\<forall>z \<in> set ys. cmp x z \<le> 0"
      using Cons.prems tr by auto
    with True Cons.prems show ?thesis by simp
  next
    case False
    then show ?thesis
      using Cons tot by (auto simp: set_insert_by)
  qed
qed

lemma sorted_js_sort:
  "consistent_comparator cmp \<Longrightarrow> sorted_wrt (\<lambda>a b. cmp a b \<le> 0) (js_sort cmp xs)"
  by (induction xs) (auto simp: sorted_insert_by)

lemma js_sort_sorted:
  "sorted_wrt (\<lambda>a b. cmp a b \<le> 0) xs \<Longrightarrow> js_sort cmp xs = xs"
proof (induction xs)
  case Nil
  then show ?case by simp
next
  case (Cons x xs)
  then have "js_sort cmp xs = xs" by simp
  moreover have "insert_by cmp x xs = x # xs"
    using Cons.prems by (cases xs) auto
  ultimately show ?case by simp
qed

lemma js_sort_idem:
  "consistent_comparator cmp \<Longrightarrow> js_sort cmp (js_sort cmp xs) = js_sort cmp xs"
  by (simp add: js_sort_sorted sorted_js_sort)

lemma consistent_difference: "consistent_comparator (\<lambda>a b. f a - (f b :: int))"
  by (auto simp: consistent_comparator_def)

lemma consistent_difference_rev: "consistent_comparator (\<lambda>a b. f b - (f a :: int))"
  by (auto simp: consistent_comparator_def)

lemma consistent_on_key:
  "consistent_comparator cmp \<Longrightarrow> consistent_comparator (\<lambda>a b. cmp (f a) (f b))"
  unfolding consistent_comparator_def by blast

lemma compare_code_units_sym: "(compare_code_units a b < 0) = (0 < compare_code_units b a)"
  by (induction a b rule: compare_code_units.induct) auto

lemma compare_code_units_trans:
  "compare_code_units a b \<le> 0 \<Longrightarrow> compare_code_units b c \<le> 0 \<Longrightarrow> compare_code_units a c \<le> 0"
proof (induction a arbitrary: b c)
  case Nil
  then show ?case by (cases c) auto
next
  case (Cons x xs)
  then show ?case
    by (cases b; cases c) (auto split: if_splits)
qed

lemma consistent_compare_code_units: "consistent_comparator compare_code_units"
  unfolding consistent_comparator_def
  using compare_code_units_sym compare_code_units_trans by blast

lemma js_sort_difference: "js_sort (\<lambda>a b. f a - (f b :: int)) xs = sort_key f xs"
proof -
  have "insert_by (\<lambda>a b. f a - f b) x ys = insort_key f x ys" for x ys
    by (induction ys) auto
  then show ?thesis
    by (induction xs) auto
qed

lemma js_sort_difference_desc: "js_sort (\<lambda>a b. f b - (f a :: int)) xs = sort_key (\<lambda>d. - f d) xs"
  using js_sort_difference [of "\<lambda>d. - f d" xs] by simp

lemma sortedDocs_eq:
  assumes "docs_ref < length h"
  shows "sortedDocs localeCompare srt h docs_ref
         = (length h,
            h @ [if srt = ''year_desc''
                 then js_sort (\<lambda>a b. year_or_zero b - year_or_zero a) (h ! docs_ref)
                 else if srt = ''year_asc''
                 then js_sort (\<lambda>a b. year_or_zero a - year_or_zero b) (h ! docs_ref)
                 else if srt = ''title_asc''
                 then js_sort (\<lambda>a b. localeCompare (title_or_empty a) (title_or_empty b)) (h ! docs_ref)
                 else h ! docs_ref])"
  using assms
  by (simp add: sortedDocs_def array_copy_def array_sort_def nth_append
        num_or_else_0 str_or_else_empty)

subsection \<open>Paginator\<close>

text \<open>
  Claim C1 does not hold for every result count: the quotient \<open>numFound / LIMIT\<close>
  is a rounded one. The count \<open>72057594037927984\<close> (\<open>2^56 + 48\<close>) is a number;
  its quotient by 20, \<open>3602879701896399.2\<close>, lies between two numbers that are
  \<open>0.5\<close> apart and is rounded down to the integer \<open>3602879701896399\<close>, which is
  then the page count: one less than the ceiling, and too few pages for the results.
\<close>

theorem totalPages_large_count_counterexample:
  "is_Number 72057594037927984
   \<and> totalPages (state0\<lparr>numFound := 72057594037927984\<rparr>) = 3602879701896399
   \<and> max 1 (ceil_div 72057594037927984 20) = 3602879701896400
   \<and> totalPages (state0\<lparr>numFound := 72057594037927984\<rparr>) * 20 < 72057594037927984"
proof -
  have l: "floor_log2 72057594037927984 = 56" "floor_log2 3602879701896399 = 51"
    by (simp_all add: floor_log2.simps)
  have n: "is_Number 72057594037927984"
    by (simp add: is_Number_def to_double_def number_div_pos_def quotient_exponent_def l
          round_half_even_def Let_def)
  have q: "number_div 72057594037927984 20 = (7205759403792798, - 1)"
    by (simp add: number_div_def number_div_pos_def quotient_exponent_def l
          round_half_even_def Let_def)
  have t: "totalPages (state0\<lparr>numFound := 72057594037927984\<rparr>) = 3602879701896399"
    by (simp add: totalPages_def LIMIT_def q Math_ceil_def)
  have c: "max 1 (ceil_div 72057594037927984 20) = (3602879701896400 :: int)"
    by (simp add: ceil_div_def)
  show ?thesis
    unfolding t using n c by simp
qed

text \<open>
  Claim C1, amended. For every result count from 0 to \<open>2^53\<close> (the range in which
  every integer is a number) and the page size 20, the total page count is
  \<open>max(1, ceil(numFound / 20))\<close>: it is the least number of pages, at least 1, that
  hold all results. For every result count the total page count is at least 1, and for
  every integer \<open>p\<close>, \<open>gotoPage(p)\<close> sets the current page to \<open>p\<close> clamped
  into \<open>[1, totalPages]\<close>, and every request it issues asks for that clamped page.
\<close>

theorem totalPages_gotoPage_clamp:
  "(0 \<le> numFound s \<and> numFound s \<le> 2 ^ 53 \<longrightarrow>
      totalPages s = max 1 (ceil_div (numFound s) 20)
    \<and> numFound s \<le> totalPages s * 20
    \<and> (\<forall>k. 1 \<le> k \<and> numFound s \<le> k * 20 \<longrightarrow> totalPages s \<le> k))
   \<and> 1 \<le> totalPages s
   \<and> page (run (gotoPage s p outcome) s) = clamp 1 (totalPages s) p
   \<and> 1 \<le> page (run (gotoPage s p outcome) s)
   \<and> page (run (gotoPage s p outcome) s) \<le> totalPages s
   \<and> (\<forall>u \<in> set (requests (gotoPage s p outcome)).
        map_of (searchParams u) ''page'' = Some (String (clamp 1 (totalPages s) p)))"
proof -
  have count: "totalPages s = max 1 (ceil_div (numFound s) 20)
    \<and> numFound s \<le> totalPages s * 20
    \<and> (\<forall>k. 1 \<le> k \<and> numFound s \<le> k * 20 \<longrightarrow> totalPages s \<le> k)"
    if range: "0 \<le> numFound s" "numFound s \<le> 2 ^ 53"
  proof -
    have tp: "totalPages s = max 1 (ceil_div (numFound s) 20)"
      using Math_ceil_number_div_20 [OF range] by (simp add: totalPages_def LIMIT_def)
    have "numFound s \<le> ceil_div (numFound s) 20 * 20"
      using ceil_div_least [of "numFound s"] by blast
    also have "\<dots> \<le> max 1 (ceil_div (numFound s) 20) * 20"
      by simp
    finally have up: "numFound s \<le> totalPages s * 20"
      by (simp add: tp)
    have least: "totalPages s \<le> k" if "1 \<le> k" "numFound s \<le> k * 20" for k
    proof -
      have "ceil_div (numFound s) 20 \<le> k"
        using ceil_div_least [of "numFound s"] that(2) by simp
      with that(1) show ?thesis by (simp add: tp)
    qed
    from tp up least show ?thesis by simp
  qed
  have ge: "1 \<le> totalPages s"
    by (simp add: totalPages_def)
  have cl: "min (max 1 p) (totalPages s) = clamp 1 (totalPages s) p"
    using ge by (simp add: clamp_def min_def max_def)
  have "run (gotoPage s p outcome) s
        = apply_action
            (run (searchBooks s (Some (clamp 1 (totalPages s) p)) outcome)
               (s\<lparr>page := clamp 1 (totalPages s) p\<rparr>)) ScrollToTop"
    by (simp add: gotoPage_def run_def Let_def cl)
  then have pg: "page (run (gotoPage s p outcome) s) = clamp 1 (totalPages s) p"
    by (simp add: page_run_searchBooks)
  have rg: "requests (gotoPage s p outcome)
            = requests (searchBooks s (Some (clamp 1 (totalPages s) p)) outcome)"
    by (simp add: gotoPage_def requests_def Let_def cl)
  have lo: "1 \<le> clamp 1 (totalPages s) p" and hi: "clamp 1 (totalPages s) p \<le> totalPages s"
    using ge by (simp_all add: clamp_def)
  have nz: "clamp 1 (totalPages s) p \<noteq> 0"
    using lo by simp
  have rq: "\<forall>u \<in> set (requests (gotoPage s p outcome)).
            map_of (searchParams u) ''page'' = Some (String (clamp 1 (totalPages s) p))"
    using nz
    by (simp add: rg requests_searchBooks searchParams_search_url or_page_def)
  have count': "0 \<le> numFound s \<and> numFound s \<le> 2 ^ 53 \<longrightarrow>
      totalPages s = max 1 (ceil_div (numFound s) 20)
    \<and> numFound s \<le> totalPages s * 20
    \<and> (\<forall>k. 1 \<le> k \<and> numFound s \<le> k * 20 \<longrightarrow> totalPages s \<le> k)"
    using count by blast
  have lo': "1 \<le> page (run (gotoPage s p outcome) s)"
    and hi': "page (run (gotoPage s p outcome) s) \<le> totalPages s"
    using pg lo hi by simp_all
  show ?thesis
    by (intro conjI count' ge pg lo' hi' rq)
qed

text \<open>The scenario of the specification: 45 results make 3 pages (the quotient is the
  number \<open>2.25\<close>), and page 5 clamps to page 3, which is the page requested.\<close>

theorem totalPages_gotoPage_clamp_witness:
  "0 \<le> numFound (state0\<lparr>query := ''Dune'', numFound := 45\<rparr>)
   \<and> numFound (state0\<lparr>query := ''Dune'', numFound := 45\<rparr>) \<le> 2 ^ 53
   \<and> number_div 45 LIMIT = (5066549580791808, - 51)
   \<and> totalPages (state0\<lparr>query := ''Dune'', numFound := 45\<rparr>) = 3
   \<and> page (run (gotoPage (state0\<lparr>query := ''Dune'', numFound := 45\<rparr>) 5 NetworkError)
             (state0\<lparr>query := ''Dune'', numFound := 45\<rparr>)) = 3
   \<and> map (\<lambda>u. map_of (searchParams u) ''page'')
         (requests (gotoPage (state0\<lparr>query := ''Dune'', numFound := 45\<rparr>) 5 NetworkError))
       = [Some ''3'']"
proof -
  let ?s = "state0\<lparr>query := ''Dune'', numFound := 45\<rparr>"
  have h: "0 \<le> numFound ?s" "numFound ?s \<le> 2 ^ 53"
    by simp_all
  note t = totalPages_gotoPage_clamp [of ?s 5 NetworkError]
  have tp: "totalPages ?s = 3"
    using t h by (simp add: ceil_div_def)
  have cl: "clamp 1 (totalPages ?s) 5 = 3"
    by (simp add: tp clamp_def)
  have s3: "String 3 = [CHR 0x33]"
    by (simp add: String_def Number_toString_def decimal.simps digit_char_def)
  have pg: "page (run (gotoPage ?s 5 NetworkError) ?s) = 3"
    using t cl by simp
  have ne: "length (requests (gotoPage ?s 5 NetworkError)) = 1"
    by (simp add: gotoPage_def requests_def searchBooks_def search_try_def Let_def trim_def
          is_js_space_def)
  then obtain u where u: "requests (gotoPage ?s 5 NetworkError) = [u]"
    by (cases "requests (gotoPage ?s 5 NetworkError)") auto
  have rq: "map_of (searchParams u) ''page'' = Some ''3''"
    using t cl s3 u by simp
  have nd: "number_div 45 LIMIT = (5066549580791808, - 51)"
    by code_simp
  from h nd tp pg u rq show ?thesis by simp
qed

subsection \<open>Search execution\<close>

text \<open>
  Claim C9. For every title that is empty or consists of white space only, search
  execution has no effect at all: no setter is called (no loading flag, no error
  message, no new documents or result count), no request is issued, and the state is
  the one before.
\<close>

theorem searchBooks_blank_title:
  assumes "\<forall>c \<in> set (query s). is_js_space c"
  shows "searchBooks s pageOverride outcome = []
       \<and> requests (searchBooks s pageOverride outcome) = []
       \<and> run (searchBooks s pageOverride outcome) s = s"
proof -
  have "trim (query s) = []"
    using assms by (simp add: trim_empty_iff)
  then have "searchBooks s pageOverride outcome = []"
    by (simp add: searchBooks_def)
  then show ?thesis
    by (simp add: requests_def run_def)
qed

theorem searchBooks_blank_title_witness:
  "list_all is_js_space (query (state0\<lparr>query := [CHR 0x20, CHR 0x09, CHR 0x20]\<rparr>))
   \<and> searchBooks (state0\<lparr>query := [CHR 0x20, CHR 0x09, CHR 0x20]\<rparr>) (Some 1)
        (Response 200 (BodyData (Val []) (Val 0))) = []"
  using searchBooks_blank_title [of "state0\<lparr>query := [CHR 0x20, CHR 0x09, CHR 0x20]\<rparr>"
      "Some 1" "Response 200 (BodyData (Val []) (Val 0))"]
  by (simp add: is_js_space_def)

text \<open>
  Claim C8. Take a search execution whose title field holds a non-empty text \<open>T\<close>
  that neither begins nor ends with white space, between two runs of white space, and
  whose author field holds such a text \<open>A\<close>, or only white space (\<open>A\<close> empty).
  It issues exactly one request. Its query parameters are, in this order, \<open>title\<close>
  with the value \<open>T\<close>, \<open>author\<close> with the value \<open>A\<close> only when \<open>A\<close> is
  not empty, \<open>page\<close> with the page override if there is one and the current page
  otherwise, and \<open>limit\<close> with the value 20. There is no other parameter, and the
  request does not depend on the sort selection. Every string is of that form, with a
  non-empty middle unless it is white space only, so this covers every request issued.
\<close>

theorem searchBooks_request_parameters:
  assumes "query s = l @ T @ r" and "list_all is_js_space l" and "list_all is_js_space r"
    and "T \<noteq> []" and "\<not> is_js_space (hd T)" and "\<not> is_js_space (last T)"
    and "author s = l' @ A @ r'" and "list_all is_js_space l'" and "list_all is_js_space r'"
    and "A = [] \<or> (\<not> is_js_space (hd A) \<and> \<not> is_js_space (last A))"
  shows "requests (searchBooks s pageOverride outcome)
            = [\<lparr> href = ''https://openlibrary.org/search.json'',
                 searchParams =
                   (''title'', T)
                   # (if A = [] then [] else [(''author'', A)])
                   @ [(''page'', String (case pageOverride of
                                          None \<Rightarrow> page s
                                        | Some n \<Rightarrow> (if n = 0 then page s else n))),
                      (''limit'', ''20'')] \<rparr>]
         \<and> requests (searchBooks (s\<lparr>sort_sel := srt\<rparr>) pageOverride outcome)
            = requests (searchBooks s pageOverride outcome)
         \<and> (\<forall>q. \<exists>l t r. q = l @ t @ r \<and> list_all is_js_space l \<and> list_all is_js_space r
                \<and> (t = [] \<or> (\<not> is_js_space (hd t) \<and> \<not> is_js_space (last t)))
                \<and> (list_all is_js_space q \<or> t \<noteq> []))"
proof -
  have tq: "trim (query s) = T"
    unfolding trim_def assms(1)
    by (rule strip_unique [OF assms(2) assms(3)]) (intro disjI2 conjI assms(5) assms(6))
  have ta: "trim (author s) = A"
    unfolding trim_def assms(7)
    by (rule strip_unique [OF assms(8) assms(9) assms(10)])
  have twenty: "String LIMIT = ''20''"
    by (simp add: String_def Number_toString_def LIMIT_def decimal.simps digit_char_def)
  have u: "search_url s T pageOverride
           = \<lparr> href = ''https://openlibrary.org/search.json'',
               searchParams =
                 (''title'', T)
                 # (if A = [] then [] else [(''author'', A)])
                 @ [(''page'', String (case pageOverride of
                                        None \<Rightarrow> page s
                                      | Some n \<Rightarrow> (if n = 0 then page s else n))),
                    (''limit'', ''20'')] \<rparr>"
    by (simp add: search_url_def Let_def twenty or_page_def ta)
  have rq: "requests (searchBooks x pageOverride outcome) = [search_url x T pageOverride]"
    if "trim (query x) = T" for x
    using that assms(4)
    by (auto simp: searchBooks_def requests_def search_try_def Let_def
             split: fetch_outcome.splits body.splits)
  have b: "search_url (s\<lparr>sort_sel := srt\<rparr>) T pageOverride = search_url s T pageOverride"
    by (simp add: search_url_def Let_def cong: if_cong)
  have c: "requests (searchBooks (s\<lparr>sort_sel := srt\<rparr>) pageOverride outcome)
           = requests (searchBooks s pageOverride outcome)"
    using tq by (simp add: rq b)
  have cov: "\<exists>l t r. q = l @ t @ r \<and> list_all is_js_space l \<and> list_all is_js_space r
                \<and> (t = [] \<or> (\<not> is_js_space (hd t) \<and> \<not> is_js_space (last t)))
                \<and> (list_all is_js_space q \<or> t \<noteq> [])" for q
  proof -
    define t where "t = rev (dropWhile is_js_space (rev (dropWhile is_js_space q)))"
    obtain l r where d: "q = l @ t @ r" "list_all is_js_space l" "list_all is_js_space r"
      using strip_decomposition [of q is_js_space] unfolding t_def by blast
    have e: "t = [] \<or> (\<not> is_js_space (hd t) \<and> \<not> is_js_space (last t))"
      using strip_ends [of is_js_space q] unfolding t_def by blast
    have "list_all is_js_space q" if "t = []"
      using that d by simp
    with d e show ?thesis by blast
  qed
  from rq [OF tq] u c cov show ?thesis by simp
qed

text \<open>The scenario of the specification: searching "Dune" with an empty author field
  requests \<open>title=Dune\<close>, the page and the limit, and no author; so does an author
  field of blanks; and white space around title and author is not sent.\<close>

theorem searchBooks_request_parameters_witness:
  "requests (searchBooks (state0\<lparr>query := ''  Dune '', author := '' Frank Herbert  ''\<rparr>)
                 (Some 1) NetworkError)
     = [\<lparr> href = ''https://openlibrary.org/search.json'',
          searchParams = [(''title'', ''Dune''), (''author'', ''Frank Herbert''),
                          (''page'', ''1''), (''limit'', ''20'')] \<rparr>]
   \<and> requests (searchBooks (state0\<lparr>query := ''Dune''\<rparr>) (Some 1) NetworkError)
     = [\<lparr> href = ''https://openlibrary.org/search.json'',
          searchParams = [(''title'', ''Dune''), (''page'', ''1''), (''limit'', ''20'')] \<rparr>]
   \<and> requests (searchBooks (state0\<lparr>query := ''Dune'', author := ''  ''\<rparr>) (Some 1) NetworkError)
     = [\<lparr> href = ''https://openlibrary.org/search.json'',
          searchParams = [(''title'', ''Dune''), (''page'', ''1''), (''limit'', ''20'')] \<rparr>]"
proof -
  let ?s = "state0\<lparr>query := ''  Dune '', author := '' Frank Herbert  ''\<rparr>"
  let ?d = "state0\<lparr>query := ''Dune''\<rparr>"
  let ?b = "state0\<lparr>query := ''Dune'', author := ''  ''\<rparr>"
  have s1: "String 1 = ''1''"
    by (simp add: String_def Number_toString_def decimal.simps digit_char_def)
  have r1: "requests (searchBooks ?s (Some 1) NetworkError)
     = [\<lparr> href = ''https://openlibrary.org/search.json'',
          searchParams = [(''title'', ''Dune''), (''author'', ''Frank Herbert''),
                          (''page'', ''1''), (''limit'', ''20'')] \<rparr>]"
    using searchBooks_request_parameters
      [of ?s "''  ''" "''Dune''" "'' ''" "'' ''" "''Frank Herbert''" "''  ''" "Some 1" NetworkError]
    by (simp add: is_js_space_def s1)
  have r2: "requests (searchBooks ?d (Some 1) NetworkError)
     = [\<lparr> href = ''https://openlibrary.org/search.json'',
          searchParams = [(''title'', ''Dune''), (''page'', ''1''), (''limit'', ''20'')] \<rparr>]"
    using searchBooks_request_parameters
      [of ?d "[]" "''Dune''" "[]" "[]" "[]" "[]" "Some 1" NetworkError]
    by (simp add: is_js_space_def s1 state0_def)
  have r3: "requests (searchBooks ?b (Some 1) NetworkError)
     = [\<lparr> href = ''https://openlibrary.org/search.json'',
          searchParams = [(''title'', ''Dune''), (''page'', ''1''), (''limit'', ''20'')] \<rparr>]"
    using searchBooks_request_parameters
      [of ?b "[]" "''Dune''" "[]" "''  ''" "[]" "[]" "Some 1" NetworkError]
    by (simp add: is_js_space_def s1)
  show ?thesis
    by (intro conjI r1 r2 r3)
qed

text \<open>
  Claim C7 does not hold as stated: a response with status 200 whose body is the JSON
  value \<open>null\<close> is none of the listed failures, and yet the documents and the
  result count are not replaced: reading \<open>data.docs\<close> throws, the \<open>catch\<close>
  sets the error message, and the documents and the count of before remain.
\<close>

theorem searchBooks_null_body_counterexample:
  "\<not> listed_failure (Response 200 BodyNull)
   \<and> docs (run (searchBooks (state0\<lparr>query := ''Dune'', docs := [docA], numFound := 45\<rparr>)
                  (Some 1) (Response 200 BodyNull))
                (state0\<lparr>query := ''Dune'', docs := [docA], numFound := 45\<rparr>)) = [docA]
   \<and> numFound (run (searchBooks (state0\<lparr>query := ''Dune'', docs := [docA], numFound := 45\<rparr>)
                      (Some 1) (Response 200 BodyNull))
                    (state0\<lparr>query := ''Dune'', docs := [docA], numFound := 45\<rparr>)) = 45
   \<and> error (run (searchBooks (state0\<lparr>query := ''Dune'', docs := [docA], numFound := 45\<rparr>)
                   (Some 1) (Response 200 BodyNull))
                 (state0\<lparr>query := ''Dune'', docs := [docA], numFound := 45\<rparr>))
     = ''Something went wrong. There was a network or API error.''"
proof -
  let ?s = "state0\<lparr>query := ''Dune'', docs := [docA], numFound := 45\<rparr>"
  have l: "\<not> listed_failure (Response 200 BodyNull)"
    by (simp add: listed_failure_def)
  have a: "searchBooks ?s (Some 1) (Response 200 BodyNull)
           = [SetLoading True, SetError [], Fetch (search_url ?s ''Dune'' (Some 1)),
              SetError ''Something went wrong. There was a network or API error.'',
              SetLoading False]"
    by (simp add: searchBooks_def search_try_def res_ok_def Let_def error_message_def
          trim_def is_js_space_def)
  show ?thesis
    unfolding a using l by (simp add: run_def)
qed

text \<open>
  Claim C7, amended. Take a search execution that issues a request (the title is not
  blank). If it fails, whatever the cause (the request is rejected, the status is not
  2xx, the body does not parse, or the body parses to \<open>null\<close>), the effects are the
  same five: the one, non-empty message "Something went wrong. There was a network or
  API error." is set, no setter of the documents or of the result count is called, and
  both keep the values they had. Otherwise the response has a 2xx status and a body
  that parses to a value other than \<open>null\<close>, and the documents and the result count
  are replaced by \<open>docs\<close> and \<open>numFound\<close> of the response (by the empty list and
  by 0 where the response has none) and the error stays cleared.
\<close>

theorem searchBooks_failure_keeps_results:
  assumes "\<not> list_all is_js_space (query s)"
  shows "(search_fails outcome \<longrightarrow>
            (\<exists>u. searchBooks s po outcome
                  = [SetLoading True, SetError '''', Fetch u,
                     SetError ''Something went wrong. There was a network or API error.'',
                     SetLoading False])
          \<and> \<not> list_ex touches_results (searchBooks s po outcome)
          \<and> run (searchBooks s po outcome) s
              = s\<lparr>loading := False,
                   error := ''Something went wrong. There was a network or API error.''\<rparr>
          \<and> error (run (searchBooks s po outcome) s) \<noteq> []
          \<and> docs (run (searchBooks s po outcome) s) = docs s
          \<and> numFound (run (searchBooks s po outcome) s) = numFound s)
       \<and> (\<forall>status dsf nf.
            outcome = Response status (BodyData dsf nf) \<and> 200 \<le> status \<and> status \<le> 299 \<longrightarrow>
            run (searchBooks s po outcome) s
              = s\<lparr>loading := False, error := '''',
                   docs := (case dsf of Val ds \<Rightarrow> ds | _ \<Rightarrow> []),
                   numFound := (case nf of Val n \<Rightarrow> n | _ \<Rightarrow> 0)\<rparr>)
       \<and> (search_fails outcome
            \<or> (\<exists>status dsf nf. outcome = Response status (BodyData dsf nf)
                                \<and> 200 \<le> status \<and> status \<le> 299))"
proof -
  have q: "trim (query s) \<noteq> []"
    using assms by (simp add: trim_empty_iff list_all_iff)
  have acts: "searchBooks s po outcome
              = [SetLoading True, SetError '''', Fetch (search_url s (trim (query s)) po),
                 SetError ''Something went wrong. There was a network or API error.'',
                 SetLoading False]"
    if "search_fails outcome"
    using that q
    by (auto simp: searchBooks_def search_try_def search_fails_def res_ok_def Let_def
             error_message_def split: fetch_outcome.splits body.splits)
  have f: ?thesis if "search_fails outcome"
    using that acts [OF that]
    by (auto simp: run_def touches_results_def search_fails_def)
  have g: ?thesis if "\<not> search_fails outcome"
  proof -
    from that obtain status dsf nf
      where o: "outcome = Response status (BodyData dsf nf)" "200 \<le> status" "status \<le> 299"
      by (auto simp: not_fails_iff)
    have a: "searchBooks s po (Response status (BodyData dsf nf))
             = [SetLoading True, SetError '''', Fetch (search_url s (trim (query s)) po),
                SetDocs (case dsf of Val ds \<Rightarrow> ds | _ \<Rightarrow> []),
                SetNumFound (case nf of Val n \<Rightarrow> n | _ \<Rightarrow> 0), SetLoading False]"
      using q o(2,3)
      by (simp add: searchBooks_def search_try_def res_ok_def Let_def or_docs_def
            num_or_else_def split: jsfield.splits)
    show ?thesis
      using that o by (simp add: a run_def)
  qed
  from f g show ?thesis by blast
qed

text \<open>A status 503 leaves the one document and the count 45 in place and sets the
  message; a 200 whose body has two documents and the count 2 replaces them by these.\<close>

theorem searchBooks_failure_keeps_results_witness:
  "\<not> list_all is_js_space (query (state0\<lparr>query := ''Dune'', docs := [doc0], numFound := 45\<rparr>))
   \<and> search_fails (Response 503 BodyUnparsable)
   \<and> run (searchBooks (state0\<lparr>query := ''Dune'', docs := [doc0], numFound := 45\<rparr>) (Some 1)
            (Response 503 BodyUnparsable))
          (state0\<lparr>query := ''Dune'', docs := [doc0], numFound := 45\<rparr>)
     = state0\<lparr>query := ''Dune'', docs := [doc0], numFound := 45, loading := False,
              error := ''Something went wrong. There was a network or API error.''\<rparr>
   \<and> run (searchBooks (state0\<lparr>query := ''Dune'', docs := [doc0], numFound := 45\<rparr>) (Some 1)
            (Response 200 (BodyData (Val [docA, docB]) (Val 2))))
          (state0\<lparr>query := ''Dune'', docs := [doc0], numFound := 45\<rparr>)
     = state0\<lparr>query := ''Dune'', docs := [docA, docB], numFound := 2, loading := False,
              error := ''''\<rparr>"
proof -
  let ?s = "state0\<lparr>query := ''Dune'', docs := [doc0], numFound := 45\<rparr>"
  have q: "\<not> list_all is_js_space (query ?s)"
    by (simp add: is_js_space_def)
  have f: "search_fails (Response 503 BodyUnparsable)"
    by (simp add: search_fails_def)
  note a = searchBooks_failure_keeps_results
             [OF q, of "Response 503 BodyUnparsable" "Some 1", THEN conjunct1, rule_format, OF f]
  note b = searchBooks_failure_keeps_results
             [OF q, of "Response 200 (BodyData (Val [docA, docB]) (Val 2))" "Some 1",
              THEN conjunct2, THEN conjunct1, rule_format, of 200 "Val [docA, docB]" "Val 2"]
  have r1: "run (searchBooks ?s (Some 1) (Response 503 BodyUnparsable)) ?s
            = state0\<lparr>query := ''Dune'', docs := [doc0], numFound := 45, loading := False,
              error := ''Something went wrong. There was a network or API error.''\<rparr>"
    using a [THEN conjunct2, THEN conjunct2, THEN conjunct1] by (simp add: state0_def)
  have r2: "run (searchBooks ?s (Some 1) (Response 200 (BodyData (Val [docA, docB]) (Val 2)))) ?s
            = state0\<lparr>query := ''Dune'', docs := [docA, docB], numFound := 2, loading := False,
              error := ''''\<rparr>"
    using b by (simp add: state0_def)
  show ?thesis
    by (intro conjI q f r1 r2)
qed

subsection \<open>Local persistence\<close>

text \<open>
  Claim C4. Whatever the storage slot holds and whatever the parser does, the
  initialiser of \<open>useLocalStorage\<close> returns a value and never raises. It returns the
  initial value when reading the slot throws, when the slot is absent or holds the
  empty string, and when the stored string does not parse; it returns the parsed value
  otherwise. For the save-set, whose initial value is the empty mapping, every such
  failure yields the empty mapping.
\<close>

theorem useLocalStorage_init_total:
  "(\<exists>v. useLocalStorage_init getItem JSON_parse k initial = Inr v)
   \<and> ((\<exists>e. getItem k = Inl e) \<longrightarrow> useLocalStorage_init getItem JSON_parse k initial = Inr initial)
   \<and> (getItem k = Inr None \<longrightarrow> useLocalStorage_init getItem JSON_parse k initial = Inr initial)
   \<and> (getItem k = Inr (Some []) \<longrightarrow> useLocalStorage_init getItem JSON_parse k initial = Inr initial)
   \<and> (\<forall>r e. getItem k = Inr (Some r) \<and> JSON_parse r = Inl e \<longrightarrow>
         useLocalStorage_init getItem JSON_parse k initial = Inr initial)
   \<and> (\<forall>r v. getItem k = Inr (Some r) \<and> r \<noteq> [] \<and> JSON_parse r = Inr v \<longrightarrow>
         useLocalStorage_init getItem JSON_parse k initial = Inr v)
   \<and> (\<exists>S. saved_init getItem parse_saved = Inr S)
   \<and> ((\<forall>r. getItem ''bf_saved'' = Inr (Some r) \<and> r \<noteq> [] \<longrightarrow> (\<exists>e. parse_saved r = Inl e)) \<longrightarrow>
         saved_init getItem parse_saved = Inr Map.empty)"
  by (auto simp: saved_init_def useLocalStorage_init_def try_catch_def
           split: sum.splits option.splits)

text \<open>Corrupt content and an inaccessible storage both load the empty save-set.\<close>

theorem useLocalStorage_init_total_witness:
  "saved_init (\<lambda>k. Inr (Some ''{not json'')) (\<lambda>r. Inl SyntaxError) = Inr Map.empty
   \<and> saved_init (\<lambda>k. Inl SecurityError) (\<lambda>r. Inl SyntaxError) = Inr Map.empty"
  using useLocalStorage_init_total [of "\<lambda>k. Inr (Some ''{not json'')" "\<lambda>r. Inl SyntaxError"
          "''bf_saved''" "Map.empty :: saved_set" "\<lambda>r. Inl SyntaxError"]
        useLocalStorage_init_total [of "\<lambda>k. Inl SecurityError" "\<lambda>r. Inl SyntaxError"
          "''bf_saved''" "Map.empty :: saved_set" "\<lambda>r. Inl SyntaxError"]
  by simp

subsection \<open>Save key and save toggle\<close>

text \<open>
  Claim C2 does not hold as stated: between the identifier \<open>key\<close> and the composite
  of title and year, \<open>toBookKey\<close> tries \<open>cover_edition_key\<close>. A document without
  \<open>key\<close> but with an edition key is saved under the edition key, and nothing is
  stored under its title and year.
\<close>

theorem toBookKey_title_year_counterexample:
  "key (doc0\<lparr>cover_edition_key := Val ''OL1M'', title := Val ''Dune'',
             first_publish_year := Val 1965\<rparr>) = Absent
   \<and> title_year_key (doc0\<lparr>cover_edition_key := Val ''OL1M'', title := Val ''Dune'',
                          first_publish_year := Val 1965\<rparr>) = ''Dune-1965''
   \<and> toBookKey (doc0\<lparr>cover_edition_key := Val ''OL1M'', title := Val ''Dune'',
                     first_publish_year := Val 1965\<rparr>) = ''OL1M''
   \<and> toggleSave (doc0\<lparr>cover_edition_key := Val ''OL1M'', title := Val ''Dune'',
                      first_publish_year := Val 1965\<rparr>) Map.empty ''Dune-1965'' = None
   \<and> toggleSave (doc0\<lparr>cover_edition_key := Val ''OL1M'', title := Val ''Dune'',
                      first_publish_year := Val 1965\<rparr>) Map.empty ''OL1M'' \<noteq> None"
  by (simp add: doc0_def toBookKey_def str_or_else_def title_year_key_def template_str_def
        truthy_num_def num_or_else_def String_def Number_toString_def decimal.simps digit_char_def
        toggleSave_def Let_def property_truthy_def object_prototype_names_def)

text \<open>
  Claim C2, amended. The save key of a document is its \<open>key\<close> when that is a
  non-empty string; otherwise its \<open>cover_edition_key\<close> when that is a non-empty
  string; otherwise the composite of title and first publish year, the title followed
  by a dash and by the year in decimal (nothing for a year that is missing or 0). For a
  document with neither identifier that is not yet saved, toggling save stores its entry
  under that composite key.
\<close>

theorem toBookKey_fallback_chain:
  "(\<forall>k. key d = Val k \<and> k \<noteq> [] \<longrightarrow> toBookKey d = k)
   \<and> (\<not> truthy_str (key d) \<longrightarrow>
        (\<forall>c. cover_edition_key d = Val c \<and> c \<noteq> [] \<longrightarrow> toBookKey d = c))
   \<and> (\<not> truthy_str (key d) \<and> \<not> truthy_str (cover_edition_key d) \<longrightarrow>
        toBookKey d = title_year_key d
        \<and> title_year_key d
            = template_str (title d) @ ''-'' @
              (case first_publish_year d of Val y \<Rightarrow> (if y = 0 then [] else String y) | _ \<Rightarrow> [])
        \<and> (S (title_year_key d) = None \<longrightarrow>
             toggleSave d S = S(title_year_key d \<mapsto> new_entry (title_year_key d) d)))"
proof -
  have a: "\<forall>k. key d = Val k \<and> k \<noteq> [] \<longrightarrow> toBookKey d = k"
    by (simp add: toBookKey_def str_or_else_def)
  have b: "\<not> truthy_str (key d) \<longrightarrow>
        (\<forall>c. cover_edition_key d = Val c \<and> c \<noteq> [] \<longrightarrow> toBookKey d = c)"
    by (auto simp: toBookKey_def str_or_else_def truthy_str_def split: jsfield.splits)
  have c: "toBookKey d = title_year_key d"
    if "\<not> truthy_str (key d)" "\<not> truthy_str (cover_edition_key d)"
    using that by (auto simp: toBookKey_def str_or_else_def truthy_str_def split: jsfield.splits)
  have e: "title_year_key d
            = template_str (title d) @ ''-'' @
              (case first_publish_year d of Val y \<Rightarrow> (if y = 0 then [] else String y) | _ \<Rightarrow> [])"
    by (simp add: title_year_key_def truthy_num_def num_or_else_def split: jsfield.splits)
  have f: "toggleSave d S = S(title_year_key d \<mapsto> new_entry (title_year_key d) d)"
    if "toBookKey d = title_year_key d" "S (title_year_key d) = None"
    using that title_year_key_not_inherited [of d]
    by (simp add: toggleSave_def Let_def property_truthy_def)
  from a b c e f show ?thesis by blast
qed

theorem toBookKey_fallback_chain_witness:
  "\<not> truthy_str (key (doc0\<lparr>title := Val ''Dune'', first_publish_year := Val 1965\<rparr>))
   \<and> \<not> truthy_str (cover_edition_key (doc0\<lparr>title := Val ''Dune'', first_publish_year := Val 1965\<rparr>))
   \<and> toBookKey (doc0\<lparr>title := Val ''Dune'', first_publish_year := Val 1965\<rparr>) = ''Dune-1965''
   \<and> toggleSave (doc0\<lparr>title := Val ''Dune'', first_publish_year := Val 1965\<rparr>) Map.empty
      = [''Dune-1965'' \<mapsto>
           new_entry ''Dune-1965'' (doc0\<lparr>title := Val ''Dune'', first_publish_year := Val 1965\<rparr>)]
   \<and> toBookKey (doc0\<lparr>key := Val ''/works/OL1W'', cover_edition_key := Val ''OL1M''\<rparr>)
      = ''/works/OL1W''
   \<and> \<not> truthy_str (key (doc0\<lparr>cover_edition_key := Val ''OL1M'', title := Val ''Dune''\<rparr>))
   \<and> toBookKey (doc0\<lparr>cover_edition_key := Val ''OL1M'', title := Val ''Dune''\<rparr>) = ''OL1M''"
proof -
  let ?d = "doc0\<lparr>title := Val ''Dune'', first_publish_year := Val 1965\<rparr>"
  let ?d1 = "doc0\<lparr>key := Val ''/works/OL1W'', cover_edition_key := Val ''OL1M''\<rparr>"
  let ?d2 = "doc0\<lparr>cover_edition_key := Val ''OL1M'', title := Val ''Dune''\<rparr>"
  have k1: "toBookKey ?d1 = ''/works/OL1W''"
    using toBookKey_fallback_chain [of ?d1 Map.empty] by simp
  have n2: "\<not> truthy_str (key ?d2)"
    by (simp add: doc0_def truthy_str_def)
  have k2: "toBookKey ?d2 = ''OL1M''"
    using toBookKey_fallback_chain [of ?d2 Map.empty] n2 by simp
  have k: "\<not> truthy_str (key ?d)" and c: "\<not> truthy_str (cover_edition_key ?d)"
    by (simp_all add: doc0_def truthy_str_def)
  have s: "String 1965 = ''1965''"
    by (simp add: String_def Number_toString_def decimal.simps digit_char_def)
  note t = toBookKey_fallback_chain [of ?d Map.empty]
  have ty: "title_year_key ?d = ''Dune-1965''"
    using t k c s by (simp add: template_str_def doc0_def)
  have tk: "toBookKey ?d = ''Dune-1965''"
    using t k c ty by simp
  have tg: "toggleSave ?d Map.empty = [''Dune-1965'' \<mapsto> new_entry ''Dune-1965'' ?d]"
    using t k c ty by simp
  from k c tk tg k1 n2 k2 show ?thesis by simp
qed

text \<open>
  Claim C3 does not hold as stated: the first toggle deletes the entry found under the
  key and the second builds a new one from the document at hand. A work saved when it
  had no cover, and toggled twice after the search returned it with a cover, ends with
  an entry that has a cover URL.
\<close>

theorem toggleSave_twice_counterexample:
  "toBookKey (doc0\<lparr>key := Val ''/works/OL1W'', title := Val ''Dune'', cover_i := Val 12\<rparr>)
     = toBookKey (doc0\<lparr>key := Val ''/works/OL1W'', title := Val ''Dune''\<rparr>)
   \<and> toggleSave (doc0\<lparr>key := Val ''/works/OL1W'', title := Val ''Dune'', cover_i := Val 12\<rparr>)
       (toggleSave (doc0\<lparr>key := Val ''/works/OL1W'', title := Val ''Dune'', cover_i := Val 12\<rparr>)
         (toggleSave (doc0\<lparr>key := Val ''/works/OL1W'', title := Val ''Dune''\<rparr>) Map.empty))
     \<noteq> toggleSave (doc0\<lparr>key := Val ''/works/OL1W'', title := Val ''Dune''\<rparr>) Map.empty"
proof -
  let ?d1 = "doc0\<lparr>key := Val ''/works/OL1W'', title := Val ''Dune''\<rparr>"
  let ?d2 = "doc0\<lparr>key := Val ''/works/OL1W'', title := Val ''Dune'', cover_i := Val 12\<rparr>"
  have k1: "toBookKey ?d1 = ''/works/OL1W''" and k2: "toBookKey ?d2 = ''/works/OL1W''"
    by (simp_all add: toBookKey_def str_or_else_def)
  have np: "''/works/OL1W'' \<notin> set object_prototype_names"
    by (simp add: object_prototype_names_def)
  have s1: "toggleSave ?d1 Map.empty ''/works/OL1W'' = Some (new_entry ''/works/OL1W'' ?d1)"
    using np by (simp add: toggleSave_def Let_def k1 property_truthy_def)
  have s2: "toggleSave ?d2 (toggleSave ?d2 (toggleSave ?d1 Map.empty)) ''/works/OL1W''
            = Some (new_entry ''/works/OL1W'' ?d2)"
    using np s1 by (simp add: toggleSave_twice_gen k2)
  have ne: "saved_cover (new_entry ''/works/OL1W'' ?d2) \<noteq> saved_cover (new_entry ''/works/OL1W'' ?d1)"
    by (simp add: new_entry_def buildCoverUrl_def truthy_num_def doc0_def)
  have "toggleSave ?d2 (toggleSave ?d2 (toggleSave ?d1 Map.empty)) ''/works/OL1W''
        \<noteq> toggleSave ?d1 Map.empty ''/works/OL1W''"
    using s1 s2 ne by auto
  then have "toggleSave ?d2 (toggleSave ?d2 (toggleSave ?d1 Map.empty))
        \<noteq> toggleSave ?d1 Map.empty"
    by metis
  with k1 k2 show ?thesis by simp
qed

text \<open>
  Claim C3, amended. Toggling save twice on a document returns the save-set to its
  original state when the document was not saved before, and also when the entry found
  under its key is the one the toggle builds from this document. When another entry was
  found under the key, two toggles keep the set of keys and put the entry built from
  the document in its place. (The last two cases are for a key that is not the name of
  a property of \<open>Object.prototype\<close>.)
\<close>

theorem toggleSave_twice:
  "(S (toBookKey d) = None \<longrightarrow> toggleSave d (toggleSave d S) = S)
   \<and> (S (toBookKey d) = Some (new_entry (toBookKey d) d)
        \<and> toBookKey d \<notin> set object_prototype_names \<longrightarrow>
        toggleSave d (toggleSave d S) = S)
   \<and> (S (toBookKey d) \<noteq> None \<and> toBookKey d \<notin> set object_prototype_names \<longrightarrow>
        toggleSave d (toggleSave d S) = S(toBookKey d \<mapsto> new_entry (toBookKey d) d)
        \<and> dom (toggleSave d (toggleSave d S)) = dom S)"
  by (auto simp: toggleSave_twice_gen fun_upd_idem)

theorem toggleSave_twice_witness:
  "Map.empty (toBookKey (doc0\<lparr>key := Val ''/works/OL1W''\<rparr>)) = (None :: saved_entry option)
   \<and> toggleSave (doc0\<lparr>key := Val ''/works/OL1W''\<rparr>)
        (toggleSave (doc0\<lparr>key := Val ''/works/OL1W''\<rparr>) Map.empty) = Map.empty
   \<and> toBookKey (doc0\<lparr>key := Val ''/works/OL1W''\<rparr>) \<notin> set object_prototype_names
   \<and> toggleSave (doc0\<lparr>key := Val ''/works/OL1W''\<rparr>)
        (toggleSave (doc0\<lparr>key := Val ''/works/OL1W''\<rparr>)
           (toggleSave (doc0\<lparr>key := Val ''/works/OL1W''\<rparr>) Map.empty))
      = toggleSave (doc0\<lparr>key := Val ''/works/OL1W''\<rparr>) Map.empty"
proof -
  let ?d = "doc0\<lparr>key := Val ''/works/OL1W''\<rparr>"
  have k: "toBookKey ?d = ''/works/OL1W''"
    by (simp add: toBookKey_def str_or_else_def)
  have np: "toBookKey ?d \<notin> set object_prototype_names"
    by (simp add: k object_prototype_names_def)
  have s1: "toggleSave ?d Map.empty (toBookKey ?d) = Some (new_entry (toBookKey ?d) ?d)"
    using np by (simp add: toggleSave_def Let_def property_truthy_def)
  have a: "toggleSave ?d (toggleSave ?d Map.empty) = Map.empty"
    using toggleSave_twice [of Map.empty ?d] by simp
  have b: "toggleSave ?d (toggleSave ?d (toggleSave ?d Map.empty)) = toggleSave ?d Map.empty"
    using toggleSave_twice [of "toggleSave ?d Map.empty" ?d] s1 np by blast
  from a b np show ?thesis by simp
qed

text \<open>
  Claim C10. For every save-set and every document, \<open>toggleSave\<close> changes at most the
  entry under the document's key: under every other key the resulting save-set holds
  what the save-set held, the same entry or none.
\<close>

theorem toggleSave_frame:
  "k \<noteq> toBookKey d \<Longrightarrow> toggleSave d S k = S k"
  by (simp add: toggleSave_def Let_def)

theorem toggleSave_frame_witness:
  "''/works/OL2W'' \<noteq> toBookKey (doc0\<lparr>key := Val ''/works/OL1W''\<rparr>)
   \<and> toggleSave (doc0\<lparr>key := Val ''/works/OL1W''\<rparr>)
        [''/works/OL2W'' \<mapsto> new_entry ''/works/OL2W'' doc0] ''/works/OL2W''
      = Some (new_entry ''/works/OL2W'' doc0)"
proof -
  have k: "''/works/OL2W'' \<noteq> toBookKey (doc0\<lparr>key := Val ''/works/OL1W''\<rparr>)"
    by (simp add: toBookKey_def str_or_else_def)
  show ?thesis
    using k toggleSave_frame [OF k, of "[''/works/OL2W'' \<mapsto> new_entry ''/works/OL2W'' doc0]"]
    by simp
qed

subsection \<open>Sort transform\<close>

text \<open>
  Claim C5. For every array of documents: with the selection \<open>relevance\<close> the sorted
  array has the documents in their original order; with \<open>year_desc\<close> and
  \<open>year_asc\<close> it has the same documents ordered by first publish year, descending
  and ascending, a missing year counting as 0 (and documents of equal year keep their
  order); with \<open>title_asc\<close> it has the same documents ordered by title under the
  browser's string comparison, a missing title counting as the empty string, for every
  comparison that is a consistent comparator.
\<close>

theorem sortedDocs_orders:
  assumes "docs_ref < length h"
  shows "case sortedDocs localeCompare srt h docs_ref of
           (arr, h') \<Rightarrow>
             (srt = ''relevance'' \<longrightarrow> h' ! arr = h ! docs_ref)
           \<and> (srt = ''year_desc'' \<longrightarrow>
                sorted_wrt (\<lambda>a b. year_or_zero b \<le> year_or_zero a) (h' ! arr)
                \<and> mset (h' ! arr) = mset (h ! docs_ref)
                \<and> h' ! arr = sort_key (\<lambda>d. - year_or_zero d) (h ! docs_ref))
           \<and> (srt = ''year_asc'' \<longrightarrow>
                sorted_wrt (\<lambda>a b. year_or_zero a \<le> year_or_zero b) (h' ! arr)
                \<and> mset (h' ! arr) = mset (h ! docs_ref)
                \<and> h' ! arr = sort_key year_or_zero (h ! docs_ref))
           \<and> (srt = ''title_asc'' \<and> consistent_comparator localeCompare \<longrightarrow>
                sorted_wrt (\<lambda>a b. localeCompare (title_or_empty a) (title_or_empty b) \<le> 0) (h' ! arr)
                \<and> mset (h' ! arr) = mset (h ! docs_ref))"
proof -
  let ?xs = "h ! docs_ref"
  have desc: "sorted_wrt (\<lambda>a b. year_or_zero b \<le> year_or_zero a)
                (js_sort (\<lambda>a b. year_or_zero b - year_or_zero a) ?xs)"
    using sorted_js_sort [OF consistent_difference [of "\<lambda>d. - year_or_zero d"], of ?xs]
    by simp
  have asc: "sorted_wrt (\<lambda>a b. year_or_zero a \<le> year_or_zero b)
                (js_sort (\<lambda>a b. year_or_zero a - year_or_zero b) ?xs)"
    using sorted_js_sort [OF consistent_difference [of year_or_zero], of ?xs]
    by simp
  have ttl: "sorted_wrt (\<lambda>a b. localeCompare (title_or_empty a) (title_or_empty b) \<le> 0)
                (js_sort (\<lambda>a b. localeCompare (title_or_empty a) (title_or_empty b)) ?xs)"
    if "consistent_comparator localeCompare"
    using sorted_js_sort [OF consistent_on_key [OF that, of title_or_empty], of ?xs] .
  show ?thesis
    using desc asc ttl
    by (simp add: sortedDocs_eq [OF assms] mset_js_sort js_sort_difference
          js_sort_difference_desc)
qed

theorem sortedDocs_orders_witness:
  "(0::nat) < length [docsABC]
   \<and> sortedDocs compare_code_units ''relevance'' [docsABC] 0
       = (1, [docsABC, docsABC])
   \<and> sortedDocs compare_code_units ''year_desc'' [docsABC] 0
       = (1, [docsABC, [docC, docA, docB]])
   \<and> sortedDocs compare_code_units ''year_asc'' [docsABC] 0
       = (1, [docsABC, [docB, docA, docC]])
   \<and> consistent_comparator compare_code_units
   \<and> sortedDocs compare_code_units ''title_asc'' [docsABC] 0
       = (1, [docsABC, [docC, docA, docB]])
   \<and> sorted_wrt (\<lambda>a b. year_or_zero b \<le> year_or_zero a) [docC, docA, docB]
   \<and> sorted_wrt (\<lambda>a b. year_or_zero a \<le> year_or_zero b) [docB, docA, docC]
   \<and> sorted_wrt (\<lambda>a b. compare_code_units (title_or_empty a) (title_or_empty b) \<le> 0)
        [docC, docA, docB]"
proof -
  let ?h = "[docsABC]"
  have l: "(0::nat) < length ?h" by simp
  have y: "num_or_else (first_publish_year docA) 0 = 1965"
      "num_or_else (first_publish_year docB) 0 = 0"
      "num_or_else (first_publish_year docC) 0 = 2001"
    by (simp_all add: docA_def docB_def docC_def doc0_def num_or_else_def)
  have t: "str_or_else (title docA) [] = ''Dune''"
      "str_or_else (title docB) [] = ''Emma''"
      "str_or_else (title docC) [] = []"
    by (simp_all add: docA_def docB_def docC_def doc0_def str_or_else_def)
  have r: "sortedDocs compare_code_units ''relevance'' ?h 0 = (1, [docsABC, docsABC])"
    by (simp add: sortedDocs_def array_copy_def array_sort_def docsABC_def)
  have d: "sortedDocs compare_code_units ''year_desc'' ?h 0 = (1, [docsABC, [docC, docA, docB]])"
    by (simp add: sortedDocs_def array_copy_def array_sort_def docsABC_def y)
  have a: "sortedDocs compare_code_units ''year_asc'' ?h 0 = (1, [docsABC, [docB, docA, docC]])"
    by (simp add: sortedDocs_def array_copy_def array_sort_def docsABC_def y)
  have c: "sortedDocs compare_code_units ''title_asc'' ?h 0 = (1, [docsABC, [docC, docA, docB]])"
    by (simp add: sortedDocs_def array_copy_def array_sort_def docsABC_def t)
  note cc = consistent_compare_code_units
  have n1: "[docsABC, xs] ! 1 = xs" for xs
    by simp
  have sd: "sorted_wrt (\<lambda>a b. year_or_zero b \<le> year_or_zero a) [docC, docA, docB]"
    using sortedDocs_orders [where localeCompare = compare_code_units and srt = "''year_desc''",
        OF l, unfolded d prod.case n1]
    by blast
  have sa: "sorted_wrt (\<lambda>a b. year_or_zero a \<le> year_or_zero b) [docB, docA, docC]"
    using sortedDocs_orders [where localeCompare = compare_code_units and srt = "''year_asc''",
        OF l, unfolded a prod.case n1]
    by blast
  have st: "sorted_wrt (\<lambda>a b. compare_code_units (title_or_empty a) (title_or_empty b) \<le> 0)
        [docC, docA, docB]"
    using sortedDocs_orders [where localeCompare = compare_code_units and srt = "''title_asc''",
        OF l, unfolded c prod.case n1] cc
    by blast
  show ?thesis
    by (intro conjI l r d a cc c sd sa st)
qed

text \<open>
  Claim C6. For every array of documents and every sort selection (for
  \<open>title_asc\<close>, with a consistent string comparison): computing the sorted array
  leaves every array of the store as it was, the array of the state among them, and
  returns a new array with the same multiset of documents; and sorting that result again
  with the same selection returns an array with the same order, again without changing
  what it was given.
\<close>

theorem sortedDocs_idempotent_nonmutating:
  assumes "docs_ref < length h"
    and "srt = ''title_asc'' \<longrightarrow> consistent_comparator localeCompare"
  shows "case sortedDocs localeCompare srt h docs_ref of
           (arr, h') \<Rightarrow>
             take (length h) h' = h
           \<and> h' ! docs_ref = h ! docs_ref
           \<and> arr = length h
           \<and> length h' = Suc (length h)
           \<and> mset (h' ! arr) = mset (h ! docs_ref)
           \<and> (case sortedDocs localeCompare srt h' arr of
                 (arr2, h'') \<Rightarrow> h'' ! arr2 = h' ! arr \<and> h'' ! arr = h' ! arr
                                \<and> h'' ! docs_ref = h ! docs_ref)"
proof -
  consider (desc) "srt = ''year_desc''" | (asc) "srt = ''year_asc''" | (ttl) "srt = ''title_asc''"
    | (other) "srt \<noteq> ''year_desc''" "srt \<noteq> ''year_asc''" "srt \<noteq> ''title_asc''"
    by blast
  then show ?thesis
  proof cases
    case desc
    show ?thesis
      using assms(1)
      by (simp add: desc sortedDocs_eq nth_append mset_js_sort
            js_sort_idem [OF consistent_difference_rev])
  next
    case asc
    show ?thesis
      using assms(1)
      by (simp add: asc sortedDocs_eq nth_append mset_js_sort
            js_sort_idem [OF consistent_difference])
  next
    case ttl
    with assms(2) have c: "consistent_comparator localeCompare"
      by simp
    show ?thesis
      using assms(1)
      by (simp add: ttl sortedDocs_eq nth_append mset_js_sort
            js_sort_idem [OF consistent_on_key [OF c]])
  next
    case other
    show ?thesis
      using assms(1)
      by (simp add: other sortedDocs_eq nth_append)
  qed
qed

theorem sortedDocs_idempotent_nonmutating_witness:
  "(0::nat) < length [docsABC]
   \<and> consistent_comparator compare_code_units
   \<and> sortedDocs compare_code_units ''title_asc'' [docsABC] 0
       = (1, [docsABC, [docC, docA, docB]])
   \<and> sortedDocs compare_code_units ''title_asc'' [docsABC, [docC, docA, docB]] 1
       = (2, [docsABC, [docC, docA, docB], [docC, docA, docB]])
   \<and> mset [docC, docA, docB] = mset docsABC"
proof -
  let ?h = "[docsABC]"
  have l: "(0::nat) < length ?h" by simp
  note cc = consistent_compare_code_units
  have p: "''title_asc'' = ''title_asc'' \<longrightarrow> consistent_comparator compare_code_units"
    using cc by blast
  have t: "str_or_else (title docA) [] = ''Dune''"
      "str_or_else (title docB) [] = ''Emma''"
      "str_or_else (title docC) [] = []"
    by (simp_all add: docA_def docB_def docC_def doc0_def str_or_else_def)
  have c: "sortedDocs compare_code_units ''title_asc'' ?h 0
           = (1, [docsABC, [docC, docA, docB]])"
    by (simp add: sortedDocs_def array_copy_def array_sort_def docsABC_def t)
  have e: "sortedDocs compare_code_units ''title_asc'' [docsABC, [docC, docA, docB]] 1
           = (2, [docsABC, [docC, docA, docB], [docC, docA, docB]])"
    by (simp add: sortedDocs_def array_copy_def array_sort_def docsABC_def t)
  have n0: "[xs] ! 0 = xs" and n1: "[docsABC, xs] ! 1 = xs" for xs :: "doc list"
    by simp_all
  have m: "mset [docC, docA, docB] = mset docsABC"
    using sortedDocs_idempotent_nonmutating
      [where localeCompare = compare_code_units and srt = "''title_asc''", OF l p,
        unfolded c prod.case n0 n1]
    by blast
  show ?thesis
    by (intro conjI l cc c e m)
qed

end
